theory Spec2Isabelle
  imports Main "HOL-Library.AList" "HOL-Library.Sublist"
begin

section \<open>The streaming response renderer (src/utils/stream_handler.py)\<close>

text \<open>
  The class \<^verbatim>\<open>StreamHandler\<close> is embedded as a record of its attributes and one function
  per method, each taking the handler and returning the updated one. What the methods do
  to the outside world (console prints, live regions started, redrawn and stopped, calls
  of the persistence sink \<^verbatim>\<open>save_func\<close>) is appended, in the order the source performs
  it, to the field \<open>effects\<close>.

  A Python \<^verbatim>\<open>str\<close> is a \<open>string\<close>, one list element per character. The fixed decoration
  of the panels (glyphs, colours, box style) is left out: every panel constructor carries
  the variable text that the source puts into that panel. An answer panel shows its text
  as Markdown and falls back to plain text when the Markdown constructor raises; both
  are the same panel here. The console, the live regions and the sink are taken to
  return normally.
\<close>

subsection \<open>Values produced by the json module\<close>

text \<open>
  The values \<^verbatim>\<open>json.loads\<close> returns: \<^verbatim>\<open>None\<close>, booleans, integers, strings, lists and
  dictionaries (a dictionary as its list of items, looked up by \<open>map_of\<close>). Numbers with
  a fraction or an exponent (Python floats) are not part of the model.
\<close>

datatype json =
    JNull
  | JBool bool
  | JInt int
  | JStr string
  | JArr "json list"
  | JObj "(string \<times> json) list"

datatype error =
    AttributeError
  | TypeError
  | ValueError
  | PermissionError
  | FileNotFoundError
  | RuntimeError

text \<open>
  The library functions the handler calls are parameters of the model:
  \<open>json_loads\<close> is \<^verbatim>\<open>json.loads\<close> (\<open>None\<close> when it raises \<^verbatim>\<open>JSONDecodeError\<close>),
  \<open>json_dumps\<close> is \<^verbatim>\<open>json.dumps(_, ensure_ascii=False, indent=2)\<close> (\<open>None\<close> when it
  raises), and \<open>py_repr\<close> is what \<^verbatim>\<open>str\<close> returns on a value that is not itself a string.
\<close>

record pylib =
  json_loads :: "string \<Rightarrow> json option"
  json_dumps :: "json \<Rightarrow> string option"
  py_repr :: "json \<Rightarrow> string"

text \<open>\<^verbatim>\<open>str(v)\<close>: a string is returned as it is.\<close>

fun py_str :: "pylib \<Rightarrow> json \<Rightarrow> string" where
  "py_str L (JStr s) = s"
| "py_str L v = py_repr L v"

text \<open>Truth value of a Python object, as \<^verbatim>\<open>if subagent\<close> tests it.\<close>

fun truthy :: "json \<Rightarrow> bool" where
  "truthy JNull = False"
| "truthy (JBool b) = b"
| "truthy (JInt i) = (i \<noteq> 0)"
| "truthy (JStr s) = (s \<noteq> [])"
| "truthy (JArr xs) = (xs \<noteq> [])"
| "truthy (JObj kvs) = (kvs \<noteq> [])"

text \<open>
  \<^verbatim>\<open>d.get(k, default)\<close>: only a dictionary has the method; on any other value the
  attribute lookup raises \<^verbatim>\<open>AttributeError\<close>.
\<close>

fun json_get :: "json \<Rightarrow> string \<Rightarrow> json \<Rightarrow> error + json" where
  "json_get (JObj kvs) k dflt = Inr (case map_of kvs k of Some v \<Rightarrow> v | None \<Rightarrow> dflt)"
| "json_get v k dflt = Inl AttributeError"

text \<open>
  A value used as a dictionary key. Python compares keys with \<^verbatim>\<open>==\<close> after hashing, so
  \<^verbatim>\<open>True\<close> and \<^verbatim>\<open>1\<close> are one key; lists and dictionaries are unhashable and raise
  \<^verbatim>\<open>TypeError\<close>.
\<close>

datatype key = KNone | KInt int | KStr string

fun dict_key :: "json \<Rightarrow> error + key" where
  "dict_key JNull = Inr KNone"
| "dict_key (JBool b) = Inr (KInt (if b then 1 else 0))"
| "dict_key (JInt i) = Inr (KInt i)"
| "dict_key (JStr s) = Inr (KStr s)"
| "dict_key (JArr xs) = Inl TypeError"
| "dict_key (JObj kvs) = Inl TypeError"

subsection \<open>Handler state\<close>

text \<open>
  One entry of \<^verbatim>\<open>tool_states\<close>. \<open>result\<close> is \<open>None\<close> for Python's \<^verbatim>\<open>None\<close>; \<open>subagent\<close> is
  \<open>None\<close> when the dictionary has no such key (top-level tool calls).
\<close>

record tool_state =
  name :: json
  args_str :: string
  status :: string
  result :: "string option"
  subagent :: "json option"

datatype panel =
    ModelThinkingPanel string
  | ModelAnswerPanel string
  | SubAgentThinkingPanel string string
  | SubAgentAnswerPanel string string
  | PendingToolPanel string string
  | ToolCompletePanel string string string string
  | ParseErrorPanel string
  | SubAgentStartPanel string string
  | SubAgentCompletePanel string
  | StreamErrorPanel string

datatype payload = TextPayload string | ToolCallPayload json string

datatype effect =
    ConsolePrint panel
  | SaveContent string string payload
  | ContentLiveStart panel
  | ContentLiveUpdate panel
  | ContentLiveStop
  | ToolsLiveStart "panel list"
  | ToolsLiveUpdate "panel list"
  | ToolsLiveStop

text \<open>
  \<open>tool_states\<close> is an \<^verbatim>\<open>OrderedDict\<close>: an association list in insertion order, where
  assigning to an existing key keeps its place (\<open>AList.update\<close>). \<open>pending_results\<close> is a
  plain dictionary. \<open>current_live\<close> and \<open>tools_live\<close> hold what a started live region shows.
\<close>

record handler =
  output_path :: string
  tool_states :: "(key \<times> tool_state) list"
  pending_results :: "key \<rightharpoonup> json"
  thinking_buffer :: "string list"
  answer_buffer :: "string list"
  current_state :: "string option"
  current_live :: "panel option"
  tools_live :: "panel list option"
  effects :: "effect list"

definition init :: "string \<Rightarrow> handler" where
  "init path = \<lparr>output_path = path, tool_states = [], pending_results = Map.empty,
     thinking_buffer = [], answer_buffer = [], current_state = None,
     current_live = None, tools_live = None, effects = []\<rparr>"

subsection \<open>Live regions\<close>

definition update_live :: "panel \<Rightarrow> handler \<Rightarrow> handler" where
  "update_live renderable s =
     (case current_live s of
        None \<Rightarrow> s\<lparr>current_live := Some renderable,
                   effects := effects s @ [ContentLiveStart renderable]\<rparr>
      | Some old \<Rightarrow> s\<lparr>current_live := Some renderable,
                   effects := effects s @ [ContentLiveUpdate renderable]\<rparr>)"

definition stop_current_live :: "handler \<Rightarrow> handler" where
  "stop_current_live s =
     (case current_live s of
        None \<Rightarrow> s
      | Some old \<Rightarrow> s\<lparr>current_live := None, effects := effects s @ [ContentLiveStop]\<rparr>)"

definition name_display :: "pylib \<Rightarrow> tool_state \<Rightarrow> string" where
  "name_display L st =
     (case subagent st of
        Some sa \<Rightarrow> (if truthy sa then ''['' @ py_str L sa @ ''] '' @ py_str L (name st)
                    else py_str L (name st))
      | None \<Rightarrow> py_str L (name st))"

definition render_pending_tools :: "pylib \<Rightarrow> handler \<Rightarrow> panel list option" where
  "render_pending_tools L s =
     (let panels = map (\<lambda>(tool_id, st). PendingToolPanel (name_display L st) (args_str st))
                       (filter (\<lambda>(tool_id, st). status st = ''pending'') (tool_states s))
      in if panels = [] then None else Some panels)"

definition stop_tools_live :: "handler \<Rightarrow> handler" where
  "stop_tools_live s =
     (case tools_live s of
        None \<Rightarrow> s
      | Some old \<Rightarrow> s\<lparr>tools_live := None, effects := effects s @ [ToolsLiveStop]\<rparr>)"

definition update_tools_live :: "pylib \<Rightarrow> handler \<Rightarrow> handler" where
  "update_tools_live L s =
     (case render_pending_tools L s of
        None \<Rightarrow> stop_tools_live s
      | Some pending_content \<Rightarrow>
          (case tools_live s of
             None \<Rightarrow> s\<lparr>tools_live := Some pending_content,
                        effects := effects s @ [ToolsLiveStart pending_content]\<rparr>
           | Some old \<Rightarrow> s\<lparr>tools_live := Some pending_content,
                        effects := effects s @ [ToolsLiveUpdate pending_content]\<rparr>))"

subsection \<open>Flushing and phase changes\<close>

definition save_and_clear_buffers :: "string \<Rightarrow> string \<Rightarrow> handler \<Rightarrow> handler" where
  "save_and_clear_buffers think_type answer_type s =
     (let s1 = (if thinking_buffer s \<noteq> []
                then s\<lparr>thinking_buffer := [],
                       effects := effects s @
                         [SaveContent (output_path s) think_type
                            (TextPayload (concat (thinking_buffer s)))]\<rparr>
                else s)
      in (if answer_buffer s1 \<noteq> []
          then s1\<lparr>answer_buffer := [],
                  effects := effects s1 @
                    [SaveContent (output_path s1) answer_type
                       (TextPayload (concat (answer_buffer s1)))]\<rparr>
          else s1))"

definition tool_phases :: "string list" where
  "tool_phases = [''tool_call'', ''tool_result'', ''sub_agent_tool_call'', ''sub_agent_tool_result'']"

definition transition_from_tool_state :: "handler \<Rightarrow> handler" where
  "transition_from_tool_state s =
     (if current_state s \<in> Some ` set tool_phases then stop_tools_live s else s)"

definition transition_from_content_state :: "string \<Rightarrow> string \<Rightarrow> string \<Rightarrow> handler \<Rightarrow> handler" where
  "transition_from_content_state target_state think_type answer_type s =
     (let s1 = transition_from_tool_state s
      in if current_state s1 \<noteq> Some target_state \<and> current_live s1 \<noteq> None
         then stop_current_live (save_and_clear_buffers think_type answer_type s1)
         else s1)"

subsection \<open>Content events\<close>

definition handle_model_thinking :: "string \<Rightarrow> handler \<Rightarrow> handler" where
  "handle_model_thinking content s =
     (let s1 = transition_from_content_state ''model_thinking'' ''think'' ''answer'' s;
          s2 = s1\<lparr>current_state := Some ''model_thinking''\<rparr>;
          s3 = s2\<lparr>thinking_buffer := thinking_buffer s2 @ [content]\<rparr>
      in update_live (ModelThinkingPanel (concat (thinking_buffer s3))) s3)"

definition handle_model_answer :: "string \<Rightarrow> handler \<Rightarrow> handler" where
  "handle_model_answer content s =
     (let s1 = transition_from_content_state ''model_answer'' ''think'' ''answer'' s;
          s2 = s1\<lparr>current_state := Some ''model_answer''\<rparr>;
          s3 = s2\<lparr>answer_buffer := answer_buffer s2 @ [content]\<rparr>
      in update_live (ModelAnswerPanel (concat (answer_buffer s3))) s3)"

definition handle_sub_agent_thinking :: "string \<Rightarrow> string \<Rightarrow> handler \<Rightarrow> handler" where
  "handle_sub_agent_thinking content sa s =
     (let s1 = transition_from_content_state ''sub_agent_thinking''
                 ''sub_agent_think'' ''sub_agent_answer'' s;
          s2 = s1\<lparr>current_state := Some ''sub_agent_thinking''\<rparr>;
          s3 = s2\<lparr>thinking_buffer := thinking_buffer s2 @ [content]\<rparr>
      in update_live (SubAgentThinkingPanel sa (concat (thinking_buffer s3))) s3)"

definition handle_sub_agent_answer :: "string \<Rightarrow> string \<Rightarrow> handler \<Rightarrow> handler" where
  "handle_sub_agent_answer content sa s =
     (let s1 = transition_from_content_state ''sub_agent_answer''
                 ''sub_agent_think'' ''sub_agent_answer'' s;
          s2 = s1\<lparr>current_state := Some ''sub_agent_answer''\<rparr>;
          s3 = s2\<lparr>answer_buffer := answer_buffer s2 @ [content]\<rparr>
      in update_live (SubAgentAnswerPanel sa (concat (answer_buffer s3))) s3)"

subsection \<open>Tool events\<close>

text \<open>
  \<^verbatim>\<open>_print_tool_complete\<close>: the permanent panel (title, displayed name, arguments, result
  text cut after 1000 characters) and the \<^verbatim>\<open>tool_call\<close> record handed to the sink.
  \<^verbatim>\<open>len(None)\<close> raises \<^verbatim>\<open>TypeError\<close>.
\<close>

definition truncation_marker :: string where
  "truncation_marker = CHR 0x0A # ''... (truncated)''"

definition print_tool_complete :: "pylib \<Rightarrow> tool_state \<Rightarrow> handler \<Rightarrow> error + handler" where
  "print_tool_complete L st s =
     (case result st of
        None \<Rightarrow> Inl TypeError
      | Some r \<Rightarrow>
          (let result_str = (if length r > 1000 then take 1000 r @ truncation_marker else r);
               title_prefix = (case subagent st of
                                 Some sa \<Rightarrow> (if truthy sa then py_str L sa @ '': '' else [])
                               | None \<Rightarrow> [])
           in Inr (s\<lparr>effects := effects s @
                 [ConsolePrint (ToolCompletePanel (title_prefix @ py_str L (name st))
                                  (name_display L st) (args_str st) result_str),
                  SaveContent (output_path s) ''tool_call''
                    (ToolCallPayload (name st) (args_str st))]\<rparr>)))"

text \<open>The flush that \<^verbatim>\<open>handle_tool_call\<close> and \<^verbatim>\<open>handle_sub_agent_start\<close> begin with.\<close>

definition leave_content :: "string list \<Rightarrow> string \<Rightarrow> string \<Rightarrow> handler \<Rightarrow> handler" where
  "leave_content phases think_type answer_type s =
     (if current_state s \<notin> Some ` set phases
      then (if current_live s \<noteq> None
            then stop_current_live (save_and_clear_buffers think_type answer_type s)
            else s)
      else s)"

text \<open>
  The body shared by the \<^verbatim>\<open>try\<close> blocks of \<^verbatim>\<open>handle_tool_call\<close> and
  \<^verbatim>\<open>handle_sub_agent_tool_call\<close> once the record \<open>st\<close> has been built: store it under the
  id, then either complete it from the Pending Result Cache or redraw the tool region.
\<close>

definition store_call :: "pylib \<Rightarrow> json \<Rightarrow> tool_state \<Rightarrow> handler \<Rightarrow> error + handler" where
  "store_call L tool_id st s =
     (case dict_key tool_id of
        Inl e \<Rightarrow> Inl e
      | Inr k \<Rightarrow>
          (let s1 = s\<lparr>tool_states := AList.update k st (tool_states s)\<rparr>
           in case pending_results s1 k of
                Some r \<Rightarrow>
                  (let st' = st\<lparr>status := ''complete'', result := Some (py_str L r)\<rparr>;
                       s2 = s1\<lparr>tool_states := AList.update k st' (tool_states s1),
                               pending_results := (pending_results s1)(k := None)\<rparr>
                   in print_tool_complete L st' (stop_tools_live s2))
              | None \<Rightarrow> Inr (update_tools_live L s1)))"

definition dumps_args :: "pylib \<Rightarrow> json \<Rightarrow> string" where
  "dumps_args L tool_args =
     (case json_dumps L tool_args of Some a \<Rightarrow> a | None \<Rightarrow> py_str L tool_args)"

definition handle_tool_call :: "pylib \<Rightarrow> string \<Rightarrow> handler \<Rightarrow> error + handler" where
  "handle_tool_call L content s =
     (let s1 = leave_content [''tool_call'', ''tool_result''] ''think'' ''answer'' s;
          s2 = s1\<lparr>current_state := Some ''tool_call''\<rparr>
      in case json_loads L content of
           None \<Rightarrow> Inr (s2\<lparr>effects := effects s2 @
                     [ConsolePrint (ParseErrorPanel (''Error parsing tool call: '' @ content))]\<rparr>)
         | Some tool_data \<Rightarrow>
             (case json_get tool_data ''id'' (JStr []) of Inl e \<Rightarrow> Inl e | Inr tool_id \<Rightarrow>
             (case json_get tool_data ''name'' (JStr []) of Inl e \<Rightarrow> Inl e | Inr tool_name \<Rightarrow>
             (case json_get tool_data ''args'' (JObj []) of Inl e \<Rightarrow> Inl e | Inr tool_args \<Rightarrow>
                store_call L tool_id
                  \<lparr>name = tool_name, args_str = dumps_args L tool_args,
                   status = ''pending'', result = None, subagent = None\<rparr> s2))))"

text \<open>
  The body shared by the \<^verbatim>\<open>try\<close> blocks of \<^verbatim>\<open>handle_tool_result\<close> and
  \<^verbatim>\<open>handle_sub_agent_tool_result\<close> after the payload has been parsed.
\<close>

definition store_result :: "pylib \<Rightarrow> json \<Rightarrow> json \<Rightarrow> handler \<Rightarrow> error + handler" where
  "store_result L tool_id tool_result s =
     (case dict_key tool_id of
        Inl e \<Rightarrow> Inl e
      | Inr k \<Rightarrow>
          (case map_of (tool_states s) k of
             Some st \<Rightarrow>
               (let st' = st\<lparr>status := ''complete'', result := Some (py_str L tool_result)\<rparr>;
                    s1 = s\<lparr>tool_states := AList.update k st' (tool_states s)\<rparr>
                in case print_tool_complete L st' (stop_tools_live s1) of
                     Inl e \<Rightarrow> Inl e
                   | Inr s2 \<Rightarrow> Inr (update_tools_live L s2))
           | None \<Rightarrow> Inr (s\<lparr>pending_results := (pending_results s)(k \<mapsto> tool_result)\<rparr>)))"

definition handle_tool_result :: "pylib \<Rightarrow> string \<Rightarrow> handler \<Rightarrow> error + handler" where
  "handle_tool_result L content s =
     (let s1 = s\<lparr>current_state := Some ''tool_result''\<rparr>
      in case json_loads L content of
           None \<Rightarrow> Inr (s1\<lparr>effects := effects s1 @
                     [ConsolePrint (ParseErrorPanel (''Error parsing tool result: '' @ content))]\<rparr>)
         | Some result_data \<Rightarrow>
             (case json_get result_data ''id'' (JStr []) of Inl e \<Rightarrow> Inl e | Inr tool_id \<Rightarrow>
             (case json_get result_data ''content'' (JStr content) of Inl e \<Rightarrow> Inl e
              | Inr tool_result \<Rightarrow> store_result L tool_id tool_result s1)))"

definition handle_sub_agent_tool_call :: "pylib \<Rightarrow> string \<Rightarrow> handler \<Rightarrow> error + handler" where
  "handle_sub_agent_tool_call L content s =
     (let s1 = leave_content tool_phases ''sub_agent_think'' ''sub_agent_answer'' s;
          s2 = s1\<lparr>current_state := Some ''sub_agent_tool_call''\<rparr>
      in case json_loads L content of
           None \<Rightarrow> Inr (s2\<lparr>effects := effects s2 @
                     [ConsolePrint (ParseErrorPanel
                        (''Error parsing sub_agent tool call: '' @ content))]\<rparr>)
         | Some tool_data \<Rightarrow>
             (case json_get tool_data ''id'' (JStr []) of Inl e \<Rightarrow> Inl e | Inr tool_id \<Rightarrow>
             (case json_get tool_data ''name'' (JStr []) of Inl e \<Rightarrow> Inl e | Inr tool_name \<Rightarrow>
             (case json_get tool_data ''args'' (JObj []) of Inl e \<Rightarrow> Inl e | Inr tool_args \<Rightarrow>
             (case json_get tool_data ''subagent'' (JStr ''SubAgent'') of Inl e \<Rightarrow> Inl e
              | Inr subagent_name \<Rightarrow>
                store_call L tool_id
                  \<lparr>name = tool_name, args_str = dumps_args L tool_args,
                   status = ''pending'', result = None, subagent = Some subagent_name\<rparr> s2)))))"

definition handle_sub_agent_tool_result :: "pylib \<Rightarrow> string \<Rightarrow> handler \<Rightarrow> error + handler" where
  "handle_sub_agent_tool_result L content s =
     (let s1 = s\<lparr>current_state := Some ''sub_agent_tool_result''\<rparr>
      in case json_loads L content of
           None \<Rightarrow> Inr (s1\<lparr>effects := effects s1 @
                     [ConsolePrint (ParseErrorPanel
                        (''Error parsing sub_agent tool result: '' @ content))]\<rparr>)
         | Some result_data \<Rightarrow>
             (case json_get result_data ''id'' (JStr []) of Inl e \<Rightarrow> Inl e | Inr tool_id \<Rightarrow>
             (case json_get result_data ''content'' (JStr content) of Inl e \<Rightarrow> Inl e
              | Inr tool_result \<Rightarrow> store_result L tool_id tool_result s1)))"

subsection \<open>Sub-agent banner, sub-agent end, error\<close>

text \<open>
  A response is the dictionary the agent stream yields. \<open>rtype\<close> is the value of
  \<^verbatim>\<open>response.get("type")\<close>: \<open>None\<close> when the key is missing or holds \<^verbatim>\<open>None\<close>, a string
  otherwise. The other fields are \<open>None\<close> when their key is missing.
\<close>

record response =
  rtype :: "string option"
  rcontent :: "string option"
  rsubagent :: "string option"
  rtask :: "string option"

definition handle_sub_agent_start :: "response \<Rightarrow> handler \<Rightarrow> handler" where
  "handle_sub_agent_start r s =
     (let subagent_name = (case rsubagent r of Some n \<Rightarrow> n | None \<Rightarrow> ''general'');
          task_desc = (case rtask r of Some t \<Rightarrow> t | None \<Rightarrow> []);
          s1 = leave_content [''tool_call'', ''tool_result''] ''think'' ''answer'' s;
          s2 = stop_tools_live s1;
          s3 = s2\<lparr>current_state := Some ''sub_agent''\<rparr>
      in s3\<lparr>effects := effects s3 @
           [ConsolePrint (SubAgentStartPanel subagent_name
              (if length task_desc > 200 then take 200 task_desc @ ''...'' else task_desc))]\<rparr>)"

definition handle_sub_agent_end :: "string \<Rightarrow> handler \<Rightarrow> handler" where
  "handle_sub_agent_end content s =
     (let s1 = (if current_live s \<noteq> None
                then stop_current_live
                       (save_and_clear_buffers ''sub_agent_think'' ''sub_agent_answer'' s)
                else s);
          s2 = stop_tools_live s1;
          result_preview = (if length content > 500 then take 500 content @ ''...'' else content)
      in s2\<lparr>effects := effects s2 @
           [ConsolePrint (SubAgentCompletePanel result_preview),
            SaveContent (output_path s2) ''sub_agent'' (TextPayload content)]\<rparr>)"

definition handle_error :: "string \<Rightarrow> handler \<Rightarrow> handler" where
  "handle_error content s =
     (let s1 = stop_current_live (stop_tools_live s)
      in s1\<lparr>effects := effects s1 @ [ConsolePrint (StreamErrorPanel content)]\<rparr>)"

subsection \<open>Dispatcher, finalisation, reset\<close>

definition event_types :: "string list" where
  "event_types = [''model_thinking'', ''model_answer'', ''tool_call'', ''tool_result'',
     ''sub_agent_start'', ''sub_agent_end'', ''sub_agent_thinking'', ''sub_agent_answer'',
     ''sub_agent_tool_call'', ''sub_agent_tool_result'', ''error'']"

definition handle_response :: "pylib \<Rightarrow> response option \<Rightarrow> handler \<Rightarrow> error + handler" where
  "handle_response L response s =
     (case response of
        None \<Rightarrow> Inr s
      | Some r \<Rightarrow>
          (case rtype r of
             None \<Rightarrow> Inr s
           | Some response_type \<Rightarrow>
               if response_type = [] then Inr s
               else
                 (let content = (case rcontent r of Some c \<Rightarrow> c | None \<Rightarrow> []);
                      sa = (case rsubagent r of Some n \<Rightarrow> n | None \<Rightarrow> ''SubAgent'')
                  in if response_type = ''model_thinking'' then Inr (handle_model_thinking content s)
                     else if response_type = ''model_answer'' then Inr (handle_model_answer content s)
                     else if response_type = ''tool_call'' then handle_tool_call L content s
                     else if response_type = ''tool_result'' then handle_tool_result L content s
                     else if response_type = ''sub_agent_start'' then Inr (handle_sub_agent_start r s)
                     else if response_type = ''sub_agent_end'' then Inr (handle_sub_agent_end content s)
                     else if response_type = ''sub_agent_thinking''
                       then Inr (handle_sub_agent_thinking content sa s)
                     else if response_type = ''sub_agent_answer''
                       then Inr (handle_sub_agent_answer content sa s)
                     else if response_type = ''sub_agent_tool_call''
                       then handle_sub_agent_tool_call L content s
                     else if response_type = ''sub_agent_tool_result''
                       then handle_sub_agent_tool_result L content s
                     else if response_type = ''error'' then Inr (handle_error content s)
                     else Inr s)))"

definition finalize :: "handler \<Rightarrow> handler" where
  "finalize s = save_and_clear_buffers ''think'' ''answer'' (stop_current_live (stop_tools_live s))"

definition reset :: "handler \<Rightarrow> handler" where
  "reset s =
     stop_tools_live (stop_current_live
       (s\<lparr>tool_states := [], pending_results := Map.empty, thinking_buffer := [],
          answer_buffer := [], current_state := None\<rparr>))"

text \<open>
  The loop of \<^verbatim>\<open>main\<close> (src/main.py) that feeds the stream to the handler, one response
  after the other; an exception leaves the loop.
\<close>

fun handle_responses :: "pylib \<Rightarrow> response option list \<Rightarrow> handler \<Rightarrow> error + handler" where
  "handle_responses L [] s = Inr s"
| "handle_responses L (r # rs) s =
     (case handle_response L r s of Inl e \<Rightarrow> Inl e | Inr s' \<Rightarrow> handle_responses L rs s')"

subsection \<open>Sample payloads\<close>

text \<open>
  Concrete payloads for the examples, and the library on them: \<open>sample_lib\<close> gives what
  \<^verbatim>\<open>json.loads\<close>, \<^verbatim>\<open>json.dumps\<close> and \<^verbatim>\<open>str\<close> return on the arguments the examples pass;
  \<^verbatim>\<open>not json\<close> is a payload on which \<^verbatim>\<open>json.loads\<close> raises \<^verbatim>\<open>JSONDecodeError\<close>.
\<close>

definition call_t1 :: string where
  \<open>call_t1 = ''{"id": "t1", "name": "ls", "args": {}}''\<close>

definition result_t1 :: string where
  \<open>result_t1 = ''{"id": "t1", "content": "42"}''\<close>

definition result_t1_again :: string where
  \<open>result_t1_again = ''{"id": "t1", "content": "43"}''\<close>

definition result_big :: string where
  \<open>result_big = ''{"content": "'' @ replicate 1500 (CHR ''a'') @ ''", "id": "t1"}''\<close>

definition sample_lib :: pylib where
  "sample_lib =
     \<lparr>json_loads = map_of
        [(call_t1, JObj [(''id'', JStr ''t1''), (''name'', JStr ''ls''), (''args'', JObj [])]),
         (result_t1, JObj [(''id'', JStr ''t1''), (''content'', JStr ''42'')]),
         (result_t1_again, JObj [(''id'', JStr ''t1''), (''content'', JStr ''43'')]),
         (result_big, JObj [(''content'', JStr (replicate 1500 (CHR ''a''))), (''id'', JStr ''t1'')])],
      json_dumps = map_of [(JObj [], ''{}'')],
      py_repr = (\<lambda>v. case v of JNull \<Rightarrow> ''None'' | JBool b \<Rightarrow> (if b then ''True'' else ''False'')
                        | _ \<Rightarrow> [])\<rparr>"

definition event :: "string \<Rightarrow> string \<Rightarrow> response option" where
  "event t c = Some \<lparr>rtype = Some t, rcontent = Some c, rsubagent = None, rtask = None\<rparr>"

subsection \<open>Notation for the statements\<close>

text \<open>
  The sink calls of one flush, and the stop of a live region that is running.
\<close>

abbreviation flush_writes :: "string \<Rightarrow> string \<Rightarrow> handler \<Rightarrow> effect list" where
  "flush_writes think_type answer_type s \<equiv>
     (if thinking_buffer s = [] then []
      else [SaveContent (output_path s) think_type (TextPayload (concat (thinking_buffer s)))]) @
     (if answer_buffer s = [] then []
      else [SaveContent (output_path s) answer_type (TextPayload (concat (answer_buffer s)))])"

abbreviation tools_stop :: "handler \<Rightarrow> effect list" where
  "tools_stop s \<equiv> (if tools_live s = None then [] else [ToolsLiveStop])"

abbreviation content_stop :: "handler \<Rightarrow> effect list" where
  "content_stop s \<equiv> (if current_live s = None then [] else [ContentLiveStop])"

text \<open>
  The calls of the persistence sink among a list of effects, each as its category and
  payload.
\<close>

definition sink_calls :: "effect list \<Rightarrow> (string \<times> payload) list" where
  "sink_calls es = concat (map (\<lambda>e. case e of SaveContent path cat p \<Rightarrow> [(cat, p)] | _ \<Rightarrow> []) es)"

text \<open>
  The id a tool event carries, as the four tool handlers read it from the payload:
  \<open>None\<close> for any other event, and when the payload does not parse, is not a dictionary
  or holds an unhashable id.
\<close>

definition carried_id :: "pylib \<Rightarrow> response \<Rightarrow> key option" where
  "carried_id L r =
     (case rtype r of
        None \<Rightarrow> None
      | Some t \<Rightarrow>
          if t \<in> set tool_phases
          then (case json_loads L (case rcontent r of Some c \<Rightarrow> c | None \<Rightarrow> []) of
                  None \<Rightarrow> None
                | Some d \<Rightarrow>
                    (case json_get d ''id'' (JStr []) of
                       Inl e \<Rightarrow> None
                     | Inr i \<Rightarrow> (case dict_key i of Inl e \<Rightarrow> None | Inr k \<Rightarrow> Some k)))
          else None)"

text \<open>
  What \<^verbatim>\<open>_print_tool_complete\<close> emits for a record \<open>st\<close> whose result text is \<open>res\<close>: the
  panel, then the \<^verbatim>\<open>tool_call\<close> record for the sink.
\<close>

abbreviation completion_report :: "pylib \<Rightarrow> string \<Rightarrow> tool_state \<Rightarrow> string \<Rightarrow> effect list" where
  "completion_report L path st res \<equiv>
     [ConsolePrint (ToolCompletePanel
        ((case subagent st of Some sa \<Rightarrow> (if truthy sa then py_str L sa @ '': '' else [])
          | None \<Rightarrow> []) @ py_str L (name st))
        (name_display L st) (args_str st)
        (if length res > 1000 then take 1000 res @ truncation_marker else res)),
      SaveContent path ''tool_call'' (ToolCallPayload (name st) (args_str st))]"

section \<open>The image tool (src/tools/vlm_tools.py)\<close>

text \<open>
  Paths are modelled as \<^verbatim>\<open>pathlib\<close> reads them on a POSIX system. A pure path is a flag
  (does the text begin with \<^verbatim>\<open>/\<close>) and its components, without the empty ones and the
  dots that \<^verbatim>\<open>Path(...)\<close> drops; a backslash is an ordinary character of a component. A
  resolved path is absolute and is given by its components alone.
\<close>

type_synonym pure_path = "bool \<times> string list"

fun split_on :: "char \<Rightarrow> string \<Rightarrow> string list" where
  "split_on c [] = [[]]"
| "split_on c (x # xs) =
     (if x = c then [] # split_on c xs
      else (case split_on c xs of [] \<Rightarrow> [[x]] | y # ys \<Rightarrow> (x # y) # ys))"

definition Path :: "string \<Rightarrow> pure_path" where
  "Path s = (prefix ''/'' s, filter (\<lambda>x. x \<noteq> [] \<and> x \<noteq> ''.'') (split_on (CHR ''/'') s))"

definition is_absolute :: "pure_path \<Rightarrow> bool" where
  "is_absolute p = fst p"

text \<open>\<^verbatim>\<open>workspace / file_path\<close> for a resolved workspace: an absolute right operand wins.\<close>

definition joinpath :: "string list \<Rightarrow> pure_path \<Rightarrow> pure_path" where
  "joinpath workspace p = (if is_absolute p then p else (True, workspace @ snd p))"

text \<open>\<^verbatim>\<open>path.lstrip('/\\')\<close>: every leading slash and backslash is removed.\<close>

definition lstrip_seps :: "string \<Rightarrow> string" where
  "lstrip_seps path = dropWhile (\<lambda>c. c = CHR ''/'' \<or> c = CHR 0x5C) path"

text \<open>
  What the tool takes from its surroundings: \<open>get_workspace_path\<close> is the value of
  \<^verbatim>\<open>utils.utils.get_workspace_path()\<close>, which is not part of the sources at hand;
  \<open>resolve\<close> is \<^verbatim>\<open>Path.resolve\<close> on the file system of the machine (it follows symbolic
  links and removes \<^verbatim>\<open>..\<close>, and it may raise); \<open>path_exists\<close>, \<open>is_file\<close> and \<open>read_bytes\<close>
  are the methods of the same names.
\<close>

record platform =
  get_workspace_path :: string
  resolve :: "pure_path \<Rightarrow> error + string list"
  path_exists :: "string list \<Rightarrow> bool"
  is_file :: "string list \<Rightarrow> bool"
  read_bytes :: "string list \<Rightarrow> error + string"

text \<open>
  \<^verbatim>\<open>_resolve_path\<close>. \<^verbatim>\<open>resolved.relative_to(workspace)\<close> succeeds exactly when the components
  of the workspace are a prefix of those of the resolved path; its \<^verbatim>\<open>ValueError\<close> becomes
  \<^verbatim>\<open>PermissionError\<close>. The two calls of \<^verbatim>\<open>resolve\<close> stand outside the \<^verbatim>\<open>try\<close>.
\<close>

definition resolve_path :: "platform \<Rightarrow> string \<Rightarrow> error + string list" where
  "resolve_path P path =
     (case resolve P (Path (get_workspace_path P)) of
        Inl e \<Rightarrow> Inl e
      | Inr workspace \<Rightarrow>
          (let path' = (if prefix ''/'' path \<or> prefix [CHR 0x5C] path then lstrip_seps path
                        else path);
               file_path = Path path'
           in case (if is_absolute file_path then resolve P file_path
                    else resolve P (joinpath workspace file_path)) of
                Inl e \<Rightarrow> Inl e
              | Inr resolved \<Rightarrow>
                  if prefix workspace resolved then Inr resolved else Inl PermissionError))"

text \<open>
  \<^verbatim>\<open>_validate_image_extension\<close>: the suffix of the last component (from its last dot, when
  that dot is neither the first nor the last character), in lower case.
\<close>

definition suffix_of :: "string \<Rightarrow> string" where
  "suffix_of nm =
     (let tl_part = rev (takeWhile (\<lambda>c. c \<noteq> CHR ''.'') (rev nm))
      in if CHR ''.'' \<in> set nm \<and> tl_part \<noteq> [] \<and> length tl_part + 1 < length nm
         then CHR ''.'' # tl_part else [])"

definition lower :: "string \<Rightarrow> string" where
  "lower s = map (\<lambda>c. if (65::nat) \<le> of_char c \<and> of_char c \<le> (90::nat)
                      then char_of (of_char c + (32::nat)) else c) s"

definition validate_image_extension :: "string list \<Rightarrow> bool" where
  "validate_image_extension parts =
     (lower (suffix_of (if parts = [] then [] else last parts))
        \<in> set [''.jpg'', ''.jpeg'', ''.png'', ''.gif'', ''.webp'', ''.bmp''])"

text \<open>
  \<^verbatim>\<open>read_image\<close>. The dictionary it returns is represented by what it carries: the URL, or
  the file that was read together with its bytes. The \<^verbatim>\<open>except\<close> clauses pass on
  \<^verbatim>\<open>FileNotFoundError\<close>, \<^verbatim>\<open>PermissionError\<close> and \<^verbatim>\<open>ValueError\<close> and turn any other exception
  into \<^verbatim>\<open>RuntimeError\<close>.
\<close>

datatype image = UrlImage string | FileImage "string list" string

definition reraise :: "error \<Rightarrow> error" where
  "reraise e = (if e = FileNotFoundError \<or> e = PermissionError \<or> e = ValueError then e
                else RuntimeError)"

definition read_image :: "platform \<Rightarrow> string \<Rightarrow> error + image" where
  "read_image P path_or_url =
     (if prefix ''http://'' path_or_url \<or> prefix ''https://'' path_or_url
      then Inr (UrlImage path_or_url)
      else (case resolve_path P path_or_url of
              Inl e \<Rightarrow> Inl (reraise e)
            | Inr file_path \<Rightarrow>
                if \<not> path_exists P file_path then Inl FileNotFoundError
                else if \<not> is_file P file_path then Inl ValueError
                else if \<not> validate_image_extension file_path then Inl ValueError
                else (case read_bytes P file_path of
                        Inl e \<Rightarrow> Inl (reraise e)
                      | Inr image_data \<Rightarrow> Inr (FileImage file_path image_data))))"

text \<open>
  A sample machine: a file system without symbolic links, where \<^verbatim>\<open>resolve\<close> makes a path
  absolute from the current directory \<^verbatim>\<open>/home/agent\<close> and removes \<^verbatim>\<open>..\<close> components, and
  raises \<^verbatim>\<open>ValueError\<close> on a path with an embedded null character, as \<^verbatim>\<open>pathlib\<close> does. The
  workspace is \<^verbatim>\<open>/srv/ws\<close> and holds the one file \<^verbatim>\<open>cat.png\<close>.
\<close>

definition lexical_resolve :: "string list \<Rightarrow> pure_path \<Rightarrow> error + string list" where
  "lexical_resolve cwd p =
     (if \<exists>x \<in> set (snd p). CHR 0x00 \<in> set x then Inl ValueError
      else Inr (foldl (\<lambda>acc x. if x = ''..'' then butlast acc else acc @ [x])
                  [] ((if fst p then [] else cwd) @ snd p)))"

definition sample_platform :: platform where
  "sample_platform =
     \<lparr>get_workspace_path = ''/srv/ws'',
      resolve = lexical_resolve [''home'', ''agent''],
      path_exists = (\<lambda>p. p \<in> set [[], [''srv''], [''srv'', ''ws''], [''srv'', ''ws'', ''cat.png'']]),
      is_file = (\<lambda>p. p = [''srv'', ''ws'', ''cat.png'']),
      read_bytes = (\<lambda>p. if p = [''srv'', ''ws'', ''cat.png''] then Inr ''PNG'' else Inl FileNotFoundError)\<rparr>"

section \<open>Properties of the renderer\<close>

lemmas run_defs = handle_response_def handle_tool_call_def handle_tool_result_def
  handle_sub_agent_tool_call_def handle_sub_agent_tool_result_def handle_model_thinking_def
  handle_model_answer_def handle_sub_agent_thinking_def handle_sub_agent_answer_def
  handle_sub_agent_start_def handle_sub_agent_end_def handle_error_def finalize_def
  store_call_def store_result_def print_tool_complete_def dumps_args_def name_display_def
  render_pending_tools_def update_tools_live_def update_live_def stop_current_live_def
  stop_tools_live_def save_and_clear_buffers_def transition_from_tool_state_def
  transition_from_content_state_def leave_content_def tool_phases_def Let_def
  sample_lib_def call_t1_def result_t1_def result_t1_again_def result_big_def event_def init_def

subsection \<open>What each step leaves alone\<close>

lemma stop_tools_live_simps [simp]:
  "tool_states (stop_tools_live s) = tool_states s"
  "pending_results (stop_tools_live s) = pending_results s"
  "thinking_buffer (stop_tools_live s) = thinking_buffer s"
  "answer_buffer (stop_tools_live s) = answer_buffer s"
  "current_state (stop_tools_live s) = current_state s"
  "current_live (stop_tools_live s) = current_live s"
  "output_path (stop_tools_live s) = output_path s"
  "tools_live (stop_tools_live s) = None"
  "effects (stop_tools_live s) = effects s @ tools_stop s"
  by (simp_all add: stop_tools_live_def split: option.splits)

lemma stop_current_live_simps [simp]:
  "tool_states (stop_current_live s) = tool_states s"
  "pending_results (stop_current_live s) = pending_results s"
  "thinking_buffer (stop_current_live s) = thinking_buffer s"
  "answer_buffer (stop_current_live s) = answer_buffer s"
  "current_state (stop_current_live s) = current_state s"
  "tools_live (stop_current_live s) = tools_live s"
  "output_path (stop_current_live s) = output_path s"
  "current_live (stop_current_live s) = None"
  "effects (stop_current_live s) = effects s @ content_stop s"
  by (simp_all add: stop_current_live_def split: option.splits)

lemma save_and_clear_buffers_simps [simp]:
  "tool_states (save_and_clear_buffers tt at s) = tool_states s"
  "pending_results (save_and_clear_buffers tt at s) = pending_results s"
  "thinking_buffer (save_and_clear_buffers tt at s) = []"
  "answer_buffer (save_and_clear_buffers tt at s) = []"
  "current_state (save_and_clear_buffers tt at s) = current_state s"
  "tools_live (save_and_clear_buffers tt at s) = tools_live s"
  "current_live (save_and_clear_buffers tt at s) = current_live s"
  "output_path (save_and_clear_buffers tt at s) = output_path s"
  "effects (save_and_clear_buffers tt at s) = effects s @ flush_writes tt at s"
  by (simp_all add: save_and_clear_buffers_def Let_def)

lemma update_live_simps [simp]:
  "tool_states (update_live p s) = tool_states s"
  "pending_results (update_live p s) = pending_results s"
  "thinking_buffer (update_live p s) = thinking_buffer s"
  "answer_buffer (update_live p s) = answer_buffer s"
  "current_state (update_live p s) = current_state s"
  "tools_live (update_live p s) = tools_live s"
  "output_path (update_live p s) = output_path s"
  "current_live (update_live p s) = Some p"
  "effects (update_live p s) = effects s @
     [if current_live s = None then ContentLiveStart p else ContentLiveUpdate p]"
  by (simp_all add: update_live_def split: option.splits)

lemma update_tools_live_simps [simp]:
  "tool_states (update_tools_live L s) = tool_states s"
  "pending_results (update_tools_live L s) = pending_results s"
  "thinking_buffer (update_tools_live L s) = thinking_buffer s"
  "answer_buffer (update_tools_live L s) = answer_buffer s"
  "current_state (update_tools_live L s) = current_state s"
  "current_live (update_tools_live L s) = current_live s"
  "output_path (update_tools_live L s) = output_path s"
  "tools_live (update_tools_live L s) = render_pending_tools L s"
  by (simp_all add: update_tools_live_def split: option.splits)

lemma leave_content_simps [simp]:
  "tool_states (leave_content ps tt at s) = tool_states s"
  "pending_results (leave_content ps tt at s) = pending_results s"
  "current_state (leave_content ps tt at s) = current_state s"
  "tools_live (leave_content ps tt at s) = tools_live s"
  "output_path (leave_content ps tt at s) = output_path s"
  by (simp_all add: leave_content_def)

lemma print_tool_complete_Some:
  "result st = Some r \<Longrightarrow>
   print_tool_complete L st s = Inr (s\<lparr>effects := effects s @
      [ConsolePrint (ToolCompletePanel
          ((case subagent st of Some sa \<Rightarrow> (if truthy sa then py_str L sa @ '': '' else [])
            | None \<Rightarrow> []) @ py_str L (name st))
          (name_display L st) (args_str st)
          (if length r > 1000 then take 1000 r @ truncation_marker else r)),
       SaveContent (output_path s) ''tool_call'' (ToolCallPayload (name st) (args_str st))]\<rparr>)"
  by (simp add: print_tool_complete_def Let_def)

lemma store_call_fields:
  assumes "dict_key i = Inr k"
  shows "\<exists>s'. store_call L i st s = Inr s'
     \<and> pending_results s' = (pending_results s)(k := None)
     \<and> tool_states s' = AList.update k
          (case pending_results s k of None \<Rightarrow> st
           | Some r \<Rightarrow> st\<lparr>status := ''complete'', result := Some (py_str L r)\<rparr>) (tool_states s)
     \<and> current_state s' = current_state s \<and> thinking_buffer s' = thinking_buffer s
     \<and> answer_buffer s' = answer_buffer s \<and> current_live s' = current_live s
     \<and> output_path s' = output_path s"
proof (cases "pending_results s k")
  case None
  with assms show ?thesis
    by (simp add: store_call_def Let_def fun_upd_idem)
next
  case (Some r)
  with assms show ?thesis
    by (simp add: store_call_def Let_def print_tool_complete_Some)
qed

lemma store_result_fields:
  assumes "dict_key i = Inr k"
  shows "\<exists>s'. store_result L i tr s = Inr s'
     \<and> pending_results s' = (case map_of (tool_states s) k of Some st \<Rightarrow> pending_results s
                             | None \<Rightarrow> (pending_results s)(k \<mapsto> tr))
     \<and> tool_states s' = (case map_of (tool_states s) k of
          Some st \<Rightarrow> AList.update k (st\<lparr>status := ''complete'', result := Some (py_str L tr)\<rparr>)
                      (tool_states s)
        | None \<Rightarrow> tool_states s)
     \<and> current_state s' = current_state s \<and> thinking_buffer s' = thinking_buffer s
     \<and> answer_buffer s' = answer_buffer s \<and> current_live s' = current_live s
     \<and> output_path s' = output_path s"
proof (cases "map_of (tool_states s) k")
  case None
  with assms show ?thesis by (simp add: store_result_def)
next
  case (Some st)
  with assms show ?thesis
    by (simp add: store_result_def Let_def print_tool_complete_Some)
qed


lemma json_get_total:
  "json_get d k dflt = Inr v \<Longrightarrow> \<exists>w. json_get d k' dflt' = Inr w"
  by (cases d) simp_all

lemma handle_tool_call_fields:
  assumes "json_loads L c = Some d" "json_get d ''id'' (JStr []) = Inr i" "dict_key i = Inr k"
  shows "\<exists>s' n a. handle_tool_call L c s = Inr s'
     \<and> json_get d ''name'' (JStr []) = Inr n \<and> json_get d ''args'' (JObj []) = Inr a
     \<and> pending_results s' = (pending_results s)(k := None)
     \<and> tool_states s' = AList.update k
          (case pending_results s k of
             None \<Rightarrow> \<lparr>name = n, args_str = dumps_args L a, status = ''pending'',
                       result = None, subagent = None\<rparr>
           | Some r \<Rightarrow> \<lparr>name = n, args_str = dumps_args L a, status = ''complete'',
                       result = Some (py_str L r), subagent = None\<rparr>) (tool_states s)"
proof -
  obtain n where n: "json_get d ''name'' (JStr []) = Inr n"
    using json_get_total [OF assms(2)] by blast
  obtain a where a: "json_get d ''args'' (JObj []) = Inr a"
    using json_get_total [OF assms(2)] by blast
  let ?s2 = "(leave_content [''tool_call'', ''tool_result''] ''think'' ''answer'' s)
               \<lparr>current_state := Some ''tool_call''\<rparr>"
  let ?st = "\<lparr>name = n, args_str = dumps_args L a, status = ''pending'',
              result = None, subagent = None\<rparr>"
  obtain s' where "store_call L i ?st ?s2 = Inr s'"
    "pending_results s' = (pending_results ?s2)(k := None)"
    "tool_states s' = AList.update k
          (case pending_results ?s2 k of None \<Rightarrow> ?st
           | Some r \<Rightarrow> ?st\<lparr>status := ''complete'', result := Some (py_str L r)\<rparr>) (tool_states ?s2)"
    using store_call_fields [OF assms(3), of L ?st ?s2] by blast
  then show ?thesis using assms n a
    by (simp add: handle_tool_call_def Let_def split: option.splits)
qed

lemma handle_sub_agent_tool_call_fields:
  assumes "json_loads L c = Some d" "json_get d ''id'' (JStr []) = Inr i" "dict_key i = Inr k"
  shows "\<exists>s' n a sa. handle_sub_agent_tool_call L c s = Inr s'
     \<and> json_get d ''name'' (JStr []) = Inr n \<and> json_get d ''args'' (JObj []) = Inr a
     \<and> json_get d ''subagent'' (JStr ''SubAgent'') = Inr sa
     \<and> pending_results s' = (pending_results s)(k := None)
     \<and> tool_states s' = AList.update k
          (case pending_results s k of
             None \<Rightarrow> \<lparr>name = n, args_str = dumps_args L a, status = ''pending'',
                       result = None, subagent = Some sa\<rparr>
           | Some r \<Rightarrow> \<lparr>name = n, args_str = dumps_args L a, status = ''complete'',
                       result = Some (py_str L r), subagent = Some sa\<rparr>) (tool_states s)"
proof -
  obtain n where n: "json_get d ''name'' (JStr []) = Inr n"
    using json_get_total [OF assms(2)] by blast
  obtain a where a: "json_get d ''args'' (JObj []) = Inr a"
    using json_get_total [OF assms(2)] by blast
  obtain sa where sa: "json_get d ''subagent'' (JStr ''SubAgent'') = Inr sa"
    using json_get_total [OF assms(2)] by blast
  let ?s2 = "(leave_content tool_phases ''sub_agent_think'' ''sub_agent_answer'' s)
               \<lparr>current_state := Some ''sub_agent_tool_call''\<rparr>"
  let ?st = "\<lparr>name = n, args_str = dumps_args L a, status = ''pending'',
              result = None, subagent = Some sa\<rparr>"
  obtain s' where "store_call L i ?st ?s2 = Inr s'"
    "pending_results s' = (pending_results ?s2)(k := None)"
    "tool_states s' = AList.update k
          (case pending_results ?s2 k of None \<Rightarrow> ?st
           | Some r \<Rightarrow> ?st\<lparr>status := ''complete'', result := Some (py_str L r)\<rparr>) (tool_states ?s2)"
    using store_call_fields [OF assms(3), of L ?st ?s2] by blast
  then show ?thesis using assms n a sa
    by (auto simp: handle_sub_agent_tool_call_def Let_def split: option.splits)
qed

lemma handle_tool_result_fields:
  assumes "json_loads L c = Some d" "json_get d ''id'' (JStr []) = Inr i" "dict_key i = Inr k"
  shows "\<exists>s' v. handle_tool_result L c s = Inr s'
     \<and> json_get d ''content'' (JStr c) = Inr v
     \<and> pending_results s' = (case map_of (tool_states s) k of Some st \<Rightarrow> pending_results s
                             | None \<Rightarrow> (pending_results s)(k \<mapsto> v))
     \<and> tool_states s' = (case map_of (tool_states s) k of
          Some st \<Rightarrow> AList.update k (st\<lparr>status := ''complete'', result := Some (py_str L v)\<rparr>)
                      (tool_states s)
        | None \<Rightarrow> tool_states s)"
proof -
  obtain v where v: "json_get d ''content'' (JStr c) = Inr v"
    using json_get_total [OF assms(2)] by blast
  let ?s1 = "s\<lparr>current_state := Some ''tool_result''\<rparr>"
  show ?thesis
    using store_result_fields [OF assms(3), of L v ?s1] assms v
    by (auto simp: handle_tool_result_def Let_def split: option.splits)
qed

lemma handle_sub_agent_tool_result_fields:
  assumes "json_loads L c = Some d" "json_get d ''id'' (JStr []) = Inr i" "dict_key i = Inr k"
  shows "\<exists>s' v. handle_sub_agent_tool_result L c s = Inr s'
     \<and> json_get d ''content'' (JStr c) = Inr v
     \<and> pending_results s' = (case map_of (tool_states s) k of Some st \<Rightarrow> pending_results s
                             | None \<Rightarrow> (pending_results s)(k \<mapsto> v))
     \<and> tool_states s' = (case map_of (tool_states s) k of
          Some st \<Rightarrow> AList.update k (st\<lparr>status := ''complete'', result := Some (py_str L v)\<rparr>)
                      (tool_states s)
        | None \<Rightarrow> tool_states s)"
proof -
  obtain v where v: "json_get d ''content'' (JStr c) = Inr v"
    using json_get_total [OF assms(2)] by blast
  let ?s1 = "s\<lparr>current_state := Some ''sub_agent_tool_result''\<rparr>"
  show ?thesis
    using store_result_fields [OF assms(3), of L v ?s1] assms v
    by (auto simp: handle_sub_agent_tool_result_def Let_def split: option.splits)
qed


lemma call_event_fields:
  assumes "rtype e = Some tc" "tc = ''tool_call'' \<or> tc = ''sub_agent_tool_call''"
    and "(case rcontent e of Some c \<Rightarrow> c | None \<Rightarrow> []) = c" "json_loads L c = Some d"
    and "json_get d ''id'' (JStr []) = Inr i" "dict_key i = Inr k"
  shows "\<exists>st n a. status st = ''pending'' \<and> result st = None
     \<and> json_get d ''name'' (JStr []) = Inr n \<and> name st = n
     \<and> json_get d ''args'' (JObj []) = Inr a \<and> args_str st = dumps_args L a
     \<and> (\<forall>s. \<exists>s'. handle_response L (Some e) s = Inr s'
            \<and> pending_results s' = (pending_results s)(k := None)
            \<and> tool_states s' = AList.update k
                 (case pending_results s k of None \<Rightarrow> st
                  | Some r \<Rightarrow> st\<lparr>status := ''complete'', result := Some (py_str L r)\<rparr>)
                 (tool_states s))"
proof -
  obtain n where n: "json_get d ''name'' (JStr []) = Inr n"
    using json_get_total [OF assms(5)] by blast
  obtain a where a: "json_get d ''args'' (JObj []) = Inr a"
    using json_get_total [OF assms(5)] by blast
  obtain sa where sa: "json_get d ''subagent'' (JStr ''SubAgent'') = Inr sa"
    using json_get_total [OF assms(5)] by blast
  from assms(2) show ?thesis
  proof
    assume tc: "tc = ''tool_call''"
    let ?st = "\<lparr>name = n, args_str = dumps_args L a, status = ''pending'',
                result = None, subagent = None\<rparr>"
    have "\<exists>s'. handle_response L (Some e) s = Inr s'
            \<and> pending_results s' = (pending_results s)(k := None)
            \<and> tool_states s' = AList.update k
                 (case pending_results s k of None \<Rightarrow> ?st
                  | Some r \<Rightarrow> ?st\<lparr>status := ''complete'', result := Some (py_str L r)\<rparr>)
                 (tool_states s)" for s
      using handle_tool_call_fields [OF assms(4,5,6), of s] assms(1,3) tc n a
      by (auto simp: handle_response_def split: option.splits)
    then show ?thesis using n a
      by (intro exI [of _ ?st] exI [of _ n] exI [of _ a]) simp
  next
    assume tc: "tc = ''sub_agent_tool_call''"
    let ?st = "\<lparr>name = n, args_str = dumps_args L a, status = ''pending'',
                result = None, subagent = Some sa\<rparr>"
    have "\<exists>s'. handle_response L (Some e) s = Inr s'
            \<and> pending_results s' = (pending_results s)(k := None)
            \<and> tool_states s' = AList.update k
                 (case pending_results s k of None \<Rightarrow> ?st
                  | Some r \<Rightarrow> ?st\<lparr>status := ''complete'', result := Some (py_str L r)\<rparr>)
                 (tool_states s)" for s
      using handle_sub_agent_tool_call_fields [OF assms(4,5,6), of s] assms(1,3) tc n a sa
      by (auto simp: handle_response_def split: option.splits)
    then show ?thesis using n a
      by (intro exI [of _ ?st] exI [of _ n] exI [of _ a]) simp
  qed
qed

lemma result_event_fields:
  assumes "rtype e = Some tr" "tr = ''tool_result'' \<or> tr = ''sub_agent_tool_result''"
    and "(case rcontent e of Some c \<Rightarrow> c | None \<Rightarrow> []) = c" "json_loads L c = Some d"
    and "json_get d ''id'' (JStr []) = Inr i" "dict_key i = Inr k"
  shows "\<exists>v. json_get d ''content'' (JStr c) = Inr v
     \<and> (\<forall>s. \<exists>s'. handle_response L (Some e) s = Inr s'
          \<and> pending_results s' = (case map_of (tool_states s) k of Some st \<Rightarrow> pending_results s
                             | None \<Rightarrow> (pending_results s)(k \<mapsto> v))
          \<and> tool_states s' = (case map_of (tool_states s) k of
               Some st \<Rightarrow> AList.update k (st\<lparr>status := ''complete'', result := Some (py_str L v)\<rparr>)
                      (tool_states s)
             | None \<Rightarrow> tool_states s))"
proof -
  obtain v where v: "json_get d ''content'' (JStr c) = Inr v"
    using json_get_total [OF assms(5)] by blast
  from assms(2) show ?thesis
  proof
    assume tr: "tr = ''tool_result''"
    show ?thesis
    proof (intro exI [of _ v] conjI allI)
      fix s
      show "\<exists>s'. handle_response L (Some e) s = Inr s'
          \<and> pending_results s' = (case map_of (tool_states s) k of Some st \<Rightarrow> pending_results s
                             | None \<Rightarrow> (pending_results s)(k \<mapsto> v))
          \<and> tool_states s' = (case map_of (tool_states s) k of
               Some st \<Rightarrow> AList.update k (st\<lparr>status := ''complete'', result := Some (py_str L v)\<rparr>)
                      (tool_states s)
             | None \<Rightarrow> tool_states s)"
        using handle_tool_result_fields [OF assms(4,5,6), of s] assms(1,3) tr v
        by (auto simp: handle_response_def)
    qed (rule v)
  next
    assume tr: "tr = ''sub_agent_tool_result''"
    show ?thesis
    proof (intro exI [of _ v] conjI allI)
      fix s
      show "\<exists>s'. handle_response L (Some e) s = Inr s'
          \<and> pending_results s' = (case map_of (tool_states s) k of Some st \<Rightarrow> pending_results s
                             | None \<Rightarrow> (pending_results s)(k \<mapsto> v))
          \<and> tool_states s' = (case map_of (tool_states s) k of
               Some st \<Rightarrow> AList.update k (st\<lparr>status := ''complete'', result := Some (py_str L v)\<rparr>)
                      (tool_states s)
             | None \<Rightarrow> tool_states s)"
        using handle_sub_agent_tool_result_fields [OF assms(4,5,6), of s] assms(1,3) tr v
        by (auto simp: handle_response_def)
    qed (rule v)
  qed
qed

subsection \<open>Correlation of tool calls and results\<close>

text \<open>
  Claim C1 (amended). Take a call event (\<^verbatim>\<open>tool_call\<close> or \<^verbatim>\<open>sub_agent_tool_call\<close>) and a
  result event (\<^verbatim>\<open>tool_result\<close> or \<^verbatim>\<open>sub_agent_tool_result\<close>) whose payloads parse and
  carry the same id, and a handler whose tool map has no record for that id yet. Processing
  the two events in either order returns normally and leaves one and the same record under
  the id: Complete, with the name and the pretty-printed arguments of the call and the
  result text of the result event; the Pending Result Cache does not hold the id.
\<close>

theorem tool_correlation_order_independent:
  assumes ec: "rtype ec = Some tc" "tc = ''tool_call'' \<or> tc = ''sub_agent_tool_call''"
              "rcontent ec = Some c"
    and er: "rtype er = Some tr" "tr = ''tool_result'' \<or> tr = ''sub_agent_tool_result''"
            "rcontent er = Some r"
    and c: "json_loads L c = Some dc" "json_get dc ''id'' (JStr []) = Inr ic" "dict_key ic = Inr k"
    and r: "json_loads L r = Some dr" "json_get dr ''id'' (JStr []) = Inr ir" "dict_key ir = Inr k"
    and fresh: "map_of (tool_states s) k = None"
  shows "\<exists>s1 s2 st n a v.
       handle_responses L [Some ec, Some er] s = Inr s1
     \<and> handle_responses L [Some er, Some ec] s = Inr s2
     \<and> map_of (tool_states s1) k = Some st \<and> map_of (tool_states s2) k = Some st
     \<and> status st = ''complete''
     \<and> json_get dc ''name'' (JStr []) = Inr n \<and> name st = n
     \<and> json_get dc ''args'' (JObj []) = Inr a \<and> args_str st = dumps_args L a
     \<and> json_get dr ''content'' (JStr r) = Inr v \<and> result st = Some (py_str L v)
     \<and> pending_results s1 k = None \<and> pending_results s2 k = None"
proof -
  obtain st n a where st: "status st = ''pending''" "result st = None"
      "json_get dc ''name'' (JStr []) = Inr n" "name st = n"
      "json_get dc ''args'' (JObj []) = Inr a" "args_str st = dumps_args L a"
    and call: "\<And>s. \<exists>s'. handle_response L (Some ec) s = Inr s'
            \<and> pending_results s' = (pending_results s)(k := None)
            \<and> tool_states s' = AList.update k
                 (case pending_results s k of None \<Rightarrow> st
                  | Some r \<Rightarrow> st\<lparr>status := ''complete'', result := Some (py_str L r)\<rparr>)
                 (tool_states s)"
    using call_event_fields [OF ec(1,2) _ c] ec(3) by (auto simp del: ex_simps)
  obtain v where v: "json_get dr ''content'' (JStr r) = Inr v"
    and res: "\<And>s. \<exists>s'. handle_response L (Some er) s = Inr s'
          \<and> pending_results s' = (case map_of (tool_states s) k of Some st \<Rightarrow> pending_results s
                             | None \<Rightarrow> (pending_results s)(k \<mapsto> v))
          \<and> tool_states s' = (case map_of (tool_states s) k of
               Some st \<Rightarrow> AList.update k (st\<lparr>status := ''complete'', result := Some (py_str L v)\<rparr>)
                      (tool_states s)
             | None \<Rightarrow> tool_states s)"
    using result_event_fields [OF er(1,2) _ r] er(3) by (auto simp del: ex_simps)
  let ?done = "st\<lparr>status := ''complete'', result := Some (py_str L v)\<rparr>"
  \<comment> \<open>call first, result second\<close>
  obtain sa where sa: "handle_response L (Some ec) s = Inr sa"
      "pending_results sa = (pending_results s)(k := None)"
      "tool_states sa = AList.update k
                 (case pending_results s k of None \<Rightarrow> st
                  | Some r \<Rightarrow> st\<lparr>status := ''complete'', result := Some (py_str L r)\<rparr>)
                 (tool_states s)"
    using call [of s] by blast
  obtain s1 where s1: "handle_response L (Some er) sa = Inr s1"
      "pending_results s1 = (case map_of (tool_states sa) k of Some st \<Rightarrow> pending_results sa
                             | None \<Rightarrow> (pending_results sa)(k \<mapsto> v))"
      "tool_states s1 = (case map_of (tool_states sa) k of
               Some st \<Rightarrow> AList.update k (st\<lparr>status := ''complete'', result := Some (py_str L v)\<rparr>)
                      (tool_states sa)
             | None \<Rightarrow> tool_states sa)"
    using res [of sa] by blast
  have rec1: "map_of (tool_states s1) k = Some ?done"
    using s1(3) sa(3) by (simp add: update_conv' split: option.splits)
  have pend1: "pending_results s1 k = None"
    using s1(2) sa(2,3) by (simp add: update_conv' split: option.splits)
  \<comment> \<open>result first, call second\<close>
  obtain sb where sb: "handle_response L (Some er) s = Inr sb"
      "pending_results sb = (pending_results s)(k \<mapsto> v)" "tool_states sb = tool_states s"
    using res [of s] fresh by auto
  obtain s2 where s2: "handle_response L (Some ec) sb = Inr s2"
      "pending_results s2 = (pending_results sb)(k := None)"
      "tool_states s2 = AList.update k
                 (case pending_results sb k of None \<Rightarrow> st
                  | Some r \<Rightarrow> st\<lparr>status := ''complete'', result := Some (py_str L r)\<rparr>)
                 (tool_states sb)"
    using call [of sb] by blast
  have rec2: "map_of (tool_states s2) k = Some ?done"
    using s2(3) sb(2) by (simp add: update_conv')
  have pend2: "pending_results s2 k = None"
    using s2(2) by simp
  have run1: "handle_responses L [Some ec, Some er] s = Inr s1"
    using sa(1) s1(1) by simp
  have run2: "handle_responses L [Some er, Some ec] s = Inr s2"
    using sb(1) s2(1) by simp
  show ?thesis
    using run1 run2 rec1 rec2 pend1 pend2 st v
    by (intro exI [of _ s1] exI [of _ s2] exI [of _ ?done] exI [of _ n] exI [of _ a] exI [of _ v])
       simp
qed

theorem tool_correlation_order_independent_witness:
  "\<exists>s1 s2 st.
       handle_responses sample_lib
         [event ''tool_call'' call_t1, event ''tool_result'' result_t1] (init ''out.md'') = Inr s1
     \<and> handle_responses sample_lib
         [event ''tool_result'' result_t1, event ''tool_call'' call_t1] (init ''out.md'') = Inr s2
     \<and> map_of (tool_states s1) (KStr ''t1'') = Some st
     \<and> map_of (tool_states s2) (KStr ''t1'') = Some st
     \<and> status st = ''complete'' \<and> name st = JStr ''ls'' \<and> args_str st = ''{}''
     \<and> result st = Some ''42''
     \<and> pending_results s1 (KStr ''t1'') = None \<and> pending_results s2 (KStr ''t1'') = None"
proof -
  let ?ec = "\<lparr>rtype = Some ''tool_call'', rcontent = Some call_t1, rsubagent = None, rtask = None\<rparr>"
  let ?er = "\<lparr>rtype = Some ''tool_result'', rcontent = Some result_t1, rsubagent = None, rtask = None\<rparr>"
  let ?dc = "JObj [(''id'', JStr ''t1''), (''name'', JStr ''ls''), (''args'', JObj [])]"
  let ?dr = "JObj [(''id'', JStr ''t1''), (''content'', JStr ''42'')]"
  have c: "json_loads sample_lib call_t1 = Some ?dc"
    by (simp add: sample_lib_def call_t1_def result_t1_def result_t1_again_def result_big_def)
  have r: "json_loads sample_lib result_t1 = Some ?dr"
    by (simp add: sample_lib_def call_t1_def result_t1_def result_t1_again_def result_big_def)
  have "\<exists>s1 s2 st n a v.
       handle_responses sample_lib [Some ?ec, Some ?er] (init ''out.md'') = Inr s1
     \<and> handle_responses sample_lib [Some ?er, Some ?ec] (init ''out.md'') = Inr s2
     \<and> map_of (tool_states s1) (KStr ''t1'') = Some st
     \<and> map_of (tool_states s2) (KStr ''t1'') = Some st
     \<and> status st = ''complete''
     \<and> json_get ?dc ''name'' (JStr []) = Inr n \<and> name st = n
     \<and> json_get ?dc ''args'' (JObj []) = Inr a \<and> args_str st = dumps_args sample_lib a
     \<and> json_get ?dr ''content'' (JStr result_t1) = Inr v \<and> result st = Some (py_str sample_lib v)
     \<and> pending_results s1 (KStr ''t1'') = None \<and> pending_results s2 (KStr ''t1'') = None"
    by (rule tool_correlation_order_independent [where tc = "''tool_call''" and tr = "''tool_result''"
          and ic = "JStr ''t1''" and ir = "JStr ''t1''", OF _ _ _ _ _ _ c _ _ r])
       (simp_all add: init_def)
  then show ?thesis
    by (auto simp: event_def dumps_args_def sample_lib_def)
qed

text \<open>
  The restriction to an id without a record is needed. After a call and its result have
  been processed, the record of \<^verbatim>\<open>t1\<close> stays in the tool map; when the id is used again, a
  call followed by its result ends Complete, while the result followed by the call ends
  Pending, because the early result is matched with the old record.
\<close>

theorem tool_correlation_reused_id_counterexample:
  "(case handle_responses sample_lib
           [event ''tool_call'' call_t1, event ''tool_result'' result_t1,
            event ''tool_call'' call_t1, event ''tool_result'' result_t1_again] (init ''out.md'')
    of Inr s \<Rightarrow> map_of (tool_states s) (KStr ''t1'') | Inl e \<Rightarrow> None)
     = Some \<lparr>name = JStr ''ls'', args_str = ''{}'', status = ''complete'',
             result = Some ''43'', subagent = None\<rparr>
   \<and> (case handle_responses sample_lib
           [event ''tool_call'' call_t1, event ''tool_result'' result_t1,
            event ''tool_result'' result_t1_again, event ''tool_call'' call_t1] (init ''out.md'')
      of Inr s \<Rightarrow> map_of (tool_states s) (KStr ''t1'') | Inl e \<Rightarrow> None)
     = Some \<lparr>name = JStr ''ls'', args_str = ''{}'', status = ''pending'',
             result = None, subagent = None\<rparr>"
  by (simp add: run_defs)

subsection \<open>Flushing\<close>

text \<open>
  Claim C2. A flush calls the sink once for each buffer that holds fragments, with the
  concatenation of the fragments in the order they were appended, and never for an empty
  buffer; afterwards both buffers are empty, so a second flush with no new content adds no
  sink call.
\<close>

theorem flush_once_per_nonempty_buffer:
  "effects (save_and_clear_buffers think_type answer_type s) = effects s @
     (if thinking_buffer s = [] then []
      else [SaveContent (output_path s) think_type (TextPayload (concat (thinking_buffer s)))]) @
     (if answer_buffer s = [] then []
      else [SaveContent (output_path s) answer_type (TextPayload (concat (answer_buffer s)))])
   \<and> thinking_buffer (save_and_clear_buffers think_type answer_type s) = []
   \<and> answer_buffer (save_and_clear_buffers think_type answer_type s) = []
   \<and> effects (save_and_clear_buffers think_type answer_type
                 (save_and_clear_buffers think_type answer_type s)) =
       effects (save_and_clear_buffers think_type answer_type s)"
  by (simp add: save_and_clear_buffers_def Let_def)

subsection \<open>Malformed tool payloads\<close>





subsection \<open>Sub-agent end\<close>



subsection \<open>Phase changes between content events\<close>



lemma sink_calls_simps [simp]:
  "sink_calls [] = []"
  "sink_calls (xs @ ys) = sink_calls xs @ sink_calls ys"
  "sink_calls (SaveContent path cat p # es) = (cat, p) # sink_calls es"
  "sink_calls (ConsolePrint pn # es) = sink_calls es"
  "sink_calls (ContentLiveStart pn # es) = sink_calls es"
  "sink_calls (ContentLiveUpdate pn # es) = sink_calls es"
  "sink_calls (ContentLiveStop # es) = sink_calls es"
  "sink_calls (ToolsLiveStart ps # es) = sink_calls es"
  "sink_calls (ToolsLiveUpdate ps # es) = sink_calls es"
  "sink_calls (ToolsLiveStop # es) = sink_calls es"
  by (simp_all add: sink_calls_def)

lemma update_tools_live_sink [simp]:
  "sink_calls (effects (update_tools_live L s)) = sink_calls (effects s)"
  by (simp add: update_tools_live_def split: option.splits)

lemma leave_content_effects:
  "effects (leave_content phases tt at s) = effects s @
     (if current_state s \<notin> Some ` set phases \<and> current_live s \<noteq> None
      then flush_writes tt at s @ [ContentLiveStop] else [])"
  by (simp add: leave_content_def)

lemma store_call_sink:
  assumes "store_call L i st s = Inr s'"
  shows "\<exists>rest. sink_calls (effects s') = sink_calls (effects s) @ rest
           \<and> fst ` set rest \<subseteq> {''tool_call''}"
proof (cases "dict_key i")
  case (Inl e)
  with assms show ?thesis by (simp add: store_call_def)
next
  case (Inr k)
  show ?thesis
  proof (cases "pending_results s k")
    case None
    with Inr assms have "s' = update_tools_live L (s\<lparr>tool_states := AList.update k st (tool_states s)\<rparr>)"
      by (simp add: store_call_def Let_def)
    then show ?thesis by simp
  next
    case (Some r)
    with Inr assms show ?thesis
      by (auto simp: store_call_def Let_def print_tool_complete_Some)
  qed
qed

lemma transition_from_tool_state_simps [simp]:
  "sink_calls (effects (transition_from_tool_state s)) = sink_calls (effects s)"
  "current_state (transition_from_tool_state s) = current_state s"
  "current_live (transition_from_tool_state s) = current_live s"
  "thinking_buffer (transition_from_tool_state s) = thinking_buffer s"
  "answer_buffer (transition_from_tool_state s) = answer_buffer s"
  "output_path (transition_from_tool_state s) = output_path s"
  "tool_states (transition_from_tool_state s) = tool_states s"
  "pending_results (transition_from_tool_state s) = pending_results s"
  by (simp_all add: transition_from_tool_state_def)

lemma transition_from_content_state_sink:
  "sink_calls (effects (transition_from_content_state t tt at s)) =
     sink_calls (effects s @
       (if current_state s \<noteq> Some t \<and> current_live s \<noteq> None then flush_writes tt at s else []))"
  by (simp add: transition_from_content_state_def Let_def)

lemma transition_from_content_state_frame [simp]:
  "tool_states (transition_from_content_state t tt at s) = tool_states s"
  "pending_results (transition_from_content_state t tt at s) = pending_results s"
  "output_path (transition_from_content_state t tt at s) = output_path s"
  by (simp_all add: transition_from_content_state_def Let_def)






subsection \<open>Categories of a flush\<close>

text \<open>
  Claim C4 (amended). The category pair of a flush is fixed by what triggers it, whatever
  phase is being left: \<^verbatim>\<open>think\<close>/\<^verbatim>\<open>answer\<close> for finalisation and for a \<^verbatim>\<open>model_thinking\<close>,
  \<^verbatim>\<open>model_answer\<close>, \<^verbatim>\<open>tool_call\<close> or \<^verbatim>\<open>sub_agent_start\<close> event;
  \<^verbatim>\<open>sub_agent_think\<close>/\<^verbatim>\<open>sub_agent_answer\<close> for a \<^verbatim>\<open>sub_agent_thinking\<close>, \<^verbatim>\<open>sub_agent_answer\<close>,
  \<^verbatim>\<open>sub_agent_tool_call\<close> or \<^verbatim>\<open>sub_agent_end\<close> event. The statement lists, for each trigger,
  every sink call it makes.
\<close>

theorem flush_categories_by_trigger:
  "sink_calls (effects (finalize s)) =
     sink_calls (effects s @ flush_writes ''think'' ''answer'' s)
   \<and> sink_calls (effects (handle_model_thinking c s)) =
     sink_calls (effects s @
       (if current_state s \<noteq> Some ''model_thinking'' \<and> current_live s \<noteq> None
        then flush_writes ''think'' ''answer'' s else []))
   \<and> sink_calls (effects (handle_model_answer c s)) =
     sink_calls (effects s @
       (if current_state s \<noteq> Some ''model_answer'' \<and> current_live s \<noteq> None
        then flush_writes ''think'' ''answer'' s else []))
   \<and> sink_calls (effects (handle_sub_agent_thinking c sa s)) =
     sink_calls (effects s @
       (if current_state s \<noteq> Some ''sub_agent_thinking'' \<and> current_live s \<noteq> None
        then flush_writes ''sub_agent_think'' ''sub_agent_answer'' s else []))
   \<and> sink_calls (effects (handle_sub_agent_answer c sa s)) =
     sink_calls (effects s @
       (if current_state s \<noteq> Some ''sub_agent_answer'' \<and> current_live s \<noteq> None
        then flush_writes ''sub_agent_think'' ''sub_agent_answer'' s else []))
   \<and> sink_calls (effects (handle_sub_agent_start r s)) =
     sink_calls (effects s @
       (if current_state s \<notin> {Some ''tool_call'', Some ''tool_result''} \<and> current_live s \<noteq> None
        then flush_writes ''think'' ''answer'' s else []))
   \<and> sink_calls (effects (handle_sub_agent_end c s)) =
     sink_calls (effects s @
       (if current_live s \<noteq> None
        then flush_writes ''sub_agent_think'' ''sub_agent_answer'' s else []) @
       [SaveContent (output_path s) ''sub_agent'' (TextPayload c)])
   \<and> (handle_tool_call L c s = Inr s1 \<longrightarrow>
        (\<exists>rest. sink_calls (effects s1) =
           sink_calls (effects s @
             (if current_state s \<notin> {Some ''tool_call'', Some ''tool_result''}
                 \<and> current_live s \<noteq> None
              then flush_writes ''think'' ''answer'' s else [])) @ rest
         \<and> fst ` set rest \<subseteq> {''tool_call''}))
   \<and> (handle_sub_agent_tool_call L c s = Inr s2 \<longrightarrow>
        (\<exists>rest. sink_calls (effects s2) =
           sink_calls (effects s @
             (if current_state s \<notin> Some ` set tool_phases \<and> current_live s \<noteq> None
              then flush_writes ''sub_agent_think'' ''sub_agent_answer'' s else [])) @ rest
         \<and> fst ` set rest \<subseteq> {''tool_call''}))"
proof (intro conjI impI)
  show "sink_calls (effects (finalize s)) =
     sink_calls (effects s @ flush_writes ''think'' ''answer'' s)"
    by (simp add: finalize_def)
next
  show "sink_calls (effects (handle_model_thinking c s)) =
     sink_calls (effects s @
       (if current_state s \<noteq> Some ''model_thinking'' \<and> current_live s \<noteq> None
        then flush_writes ''think'' ''answer'' s else []))"
    using transition_from_content_state_sink [of "''model_thinking''" "''think''" "''answer''" s]
    by (simp add: handle_model_thinking_def Let_def)
next
  show "sink_calls (effects (handle_model_answer c s)) =
     sink_calls (effects s @
       (if current_state s \<noteq> Some ''model_answer'' \<and> current_live s \<noteq> None
        then flush_writes ''think'' ''answer'' s else []))"
    using transition_from_content_state_sink [of "''model_answer''" "''think''" "''answer''" s]
    by (simp add: handle_model_answer_def Let_def)
next
  show "sink_calls (effects (handle_sub_agent_thinking c sa s)) =
     sink_calls (effects s @
       (if current_state s \<noteq> Some ''sub_agent_thinking'' \<and> current_live s \<noteq> None
        then flush_writes ''sub_agent_think'' ''sub_agent_answer'' s else []))"
    using transition_from_content_state_sink
            [of "''sub_agent_thinking''" "''sub_agent_think''" "''sub_agent_answer''" s]
    by (simp add: handle_sub_agent_thinking_def Let_def)
next
  show "sink_calls (effects (handle_sub_agent_answer c sa s)) =
     sink_calls (effects s @
       (if current_state s \<noteq> Some ''sub_agent_answer'' \<and> current_live s \<noteq> None
        then flush_writes ''sub_agent_think'' ''sub_agent_answer'' s else []))"
    using transition_from_content_state_sink
            [of "''sub_agent_answer''" "''sub_agent_think''" "''sub_agent_answer''" s]
    by (simp add: handle_sub_agent_answer_def Let_def)
next
  show "sink_calls (effects (handle_sub_agent_start r s)) =
     sink_calls (effects s @
       (if current_state s \<notin> {Some ''tool_call'', Some ''tool_result''} \<and> current_live s \<noteq> None
        then flush_writes ''think'' ''answer'' s else []))"
    by (simp add: handle_sub_agent_start_def Let_def leave_content_effects)
next
  show "sink_calls (effects (handle_sub_agent_end c s)) =
     sink_calls (effects s @
       (if current_live s \<noteq> None
        then flush_writes ''sub_agent_think'' ''sub_agent_answer'' s else []) @
       [SaveContent (output_path s) ''sub_agent'' (TextPayload c)])"
    by (simp add: handle_sub_agent_end_def Let_def)
next
  assume run: "handle_tool_call L c s = Inr s1"
  let ?s2 = "(leave_content [''tool_call'', ''tool_result''] ''think'' ''answer'' s)
               \<lparr>current_state := Some ''tool_call''\<rparr>"
  have "\<exists>rest. sink_calls (effects s1) = sink_calls (effects ?s2) @ rest
           \<and> fst ` set rest \<subseteq> {''tool_call''}"
  proof (cases "json_loads L c")
    case None
    with run show ?thesis by (auto simp: handle_tool_call_def Let_def)
  next
    case (Some d)
    with run obtain i st where "store_call L i st ?s2 = Inr s1"
      by (auto simp: handle_tool_call_def Let_def split: sum.splits)
    then show ?thesis by (rule store_call_sink)
  qed
  moreover have "sink_calls (effects ?s2) =
           sink_calls (effects s @
             (if current_state s \<notin> {Some ''tool_call'', Some ''tool_result''}
                 \<and> current_live s \<noteq> None
              then flush_writes ''think'' ''answer'' s else []))"
    by (simp add: leave_content_effects)
  ultimately show "\<exists>rest. sink_calls (effects s1) =
           sink_calls (effects s @
             (if current_state s \<notin> {Some ''tool_call'', Some ''tool_result''}
                 \<and> current_live s \<noteq> None
              then flush_writes ''think'' ''answer'' s else [])) @ rest
         \<and> fst ` set rest \<subseteq> {''tool_call''}"
    by (simp only:)
next
  assume run: "handle_sub_agent_tool_call L c s = Inr s2"
  let ?s2 = "(leave_content tool_phases ''sub_agent_think'' ''sub_agent_answer'' s)
               \<lparr>current_state := Some ''sub_agent_tool_call''\<rparr>"
  have "\<exists>rest. sink_calls (effects s2) = sink_calls (effects ?s2) @ rest
           \<and> fst ` set rest \<subseteq> {''tool_call''}"
  proof (cases "json_loads L c")
    case None
    with run show ?thesis by (auto simp: handle_sub_agent_tool_call_def Let_def)
  next
    case (Some d)
    with run obtain i st where "store_call L i st ?s2 = Inr s2"
      by (auto simp: handle_sub_agent_tool_call_def Let_def split: sum.splits)
    then show ?thesis by (rule store_call_sink)
  qed
  moreover have "sink_calls (effects ?s2) =
           sink_calls (effects s @
             (if current_state s \<notin> Some ` set tool_phases \<and> current_live s \<noteq> None
              then flush_writes ''sub_agent_think'' ''sub_agent_answer'' s else []))"
    by (simp add: leave_content_effects)
  ultimately show "\<exists>rest. sink_calls (effects s2) =
           sink_calls (effects s @
             (if current_state s \<notin> Some ` set tool_phases \<and> current_live s \<noteq> None
              then flush_writes ''sub_agent_think'' ''sub_agent_answer'' s else [])) @ rest
         \<and> fst ` set rest \<subseteq> {''tool_call''}"
    by (simp only:)
qed

theorem flush_categories_by_trigger_witness:
  "sink_calls (effects (finalize (handle_model_thinking ''hm'' (init ''out.md'')))) =
     [(''think'', TextPayload ''hm'')]
   \<and> sink_calls (effects (handle_model_answer ''ok'' (handle_model_thinking ''hm'' (init ''out.md'')))) =
     [(''think'', TextPayload ''hm'')]
   \<and> sink_calls (effects (handle_sub_agent_answer ''ok'' ''SubAgent''
        (handle_model_thinking ''hm'' (init ''out.md'')))) =
     [(''sub_agent_think'', TextPayload ''hm'')]
   \<and> sink_calls (effects (handle_sub_agent_end ''ok'' (handle_model_thinking ''hm'' (init ''out.md'')))) =
     [(''sub_agent_think'', TextPayload ''hm''), (''sub_agent'', TextPayload ''ok'')]
   \<and> (\<exists>s1. handle_tool_call sample_lib call_t1 (handle_model_thinking ''hm'' (init ''out.md'')) = Inr s1
         \<and> sink_calls (effects s1) = [(''think'', TextPayload ''hm'')])
   \<and> (\<exists>s2. handle_sub_agent_tool_call sample_lib call_t1
               (handle_model_thinking ''hm'' (init ''out.md'')) = Inr s2
         \<and> sink_calls (effects s2) = [(''sub_agent_think'', TextPayload ''hm'')])"
proof -
  let ?s = "handle_model_thinking ''hm'' (init ''out.md'')"
  have s: "?s = \<lparr>output_path = ''out.md'', tool_states = [], pending_results = Map.empty,
      thinking_buffer = [''hm''], answer_buffer = [],
      current_state = Some ''model_thinking'',
      current_live = Some (ModelThinkingPanel ''hm''), tools_live = None,
      effects = [ContentLiveStart (ModelThinkingPanel ''hm'')]\<rparr>"
    by (simp add: run_defs)
  obtain s1 where s1: "handle_tool_call sample_lib call_t1 ?s = Inr s1"
    by (simp add: s run_defs)
  obtain s2 where s2: "handle_sub_agent_tool_call sample_lib call_t1 ?s = Inr s2"
    by (simp add: s run_defs)
  have no_more: "sink_calls (effects s1) = [(''think'', TextPayload ''hm'')]"
    using s1 by (auto simp: s run_defs)
  have no_more2: "sink_calls (effects s2) = [(''sub_agent_think'', TextPayload ''hm'')]"
    using s2 by (auto simp: s run_defs)
  show ?thesis
    using flush_categories_by_trigger
            [of ?s "''ok''" "''SubAgent''"
               "\<lparr>rtype = Some ''sub_agent_start'', rcontent = None, rsubagent = Some ''coder'',
                 rtask = Some ''fix''\<rparr>" sample_lib s1 s2] s1 s2 no_more no_more2
    by (simp add: s tool_phases_def)
qed

text \<open>
  The phase being left does not select the categories: a fragment buffered in the
  \<^verbatim>\<open>sub_agent_thinking\<close> phase is written under \<^verbatim>\<open>think\<close> by finalisation, and also by a
  \<^verbatim>\<open>model_answer\<close> event that ends the phase.
\<close>

theorem flush_categories_by_trigger_counterexample:
  "(case handle_responses sample_lib [event ''sub_agent_thinking'' ''hm''] (init ''out.md'')
    of Inr s \<Rightarrow> Some (current_state s, thinking_buffer s, sink_calls (effects (finalize s)))
     | Inl e \<Rightarrow> None)
   = Some (Some ''sub_agent_thinking'', [''hm''], [(''think'', TextPayload ''hm'')])
   \<and> (case handle_responses sample_lib
           [event ''sub_agent_thinking'' ''hm'', event ''model_answer'' ''ok''] (init ''out.md'')
      of Inr s \<Rightarrow> Some (sink_calls (effects s)) | Inl e \<Rightarrow> None)
   = Some [(''think'', TextPayload ''hm'')]"
  by (simp add: run_defs)

subsection \<open>One step of the dispatcher on the tool map\<close>

lemma store_call_step:
  assumes "store_call L i st0 s = Inr s'"
  shows "\<exists>k0. dict_key i = Inr k0
     \<and> (case pending_results s k0 of
          None \<Rightarrow> tool_states s' = AList.update k0 st0 (tool_states s)
        | Some r \<Rightarrow>
            tool_states s' = AList.update k0
               (st0\<lparr>status := ''complete'', result := Some (py_str L r)\<rparr>) (tool_states s)
          \<and> effects s' = effects s @ tools_stop s @
               completion_report L (output_path s)
                 (st0\<lparr>status := ''complete'', result := Some (py_str L r)\<rparr>) (py_str L r))"
proof (cases "dict_key i")
  case (Inl e)
  with assms show ?thesis by (simp add: store_call_def)
next
  case (Inr k0)
  show ?thesis
  proof (cases "pending_results s k0")
    case None
    with Inr assms show ?thesis by (auto simp: store_call_def Let_def)
  next
    case (Some r)
    with Inr assms show ?thesis
      by (auto simp: store_call_def Let_def print_tool_complete_Some name_display_def)
  qed
qed

lemma store_result_step:
  assumes "store_result L i v s = Inr s'"
  shows "\<exists>k0. dict_key i = Inr k0
     \<and> (case map_of (tool_states s) k0 of
          None \<Rightarrow> tool_states s' = tool_states s
        | Some st0 \<Rightarrow>
            tool_states s' = AList.update k0
               (st0\<lparr>status := ''complete'', result := Some (py_str L v)\<rparr>) (tool_states s)
          \<and> (\<exists>post. effects s' = effects s @ tools_stop s @
               completion_report L (output_path s)
                 (st0\<lparr>status := ''complete'', result := Some (py_str L v)\<rparr>) (py_str L v) @ post))"
proof (cases "dict_key i")
  case (Inl e)
  with assms show ?thesis by (simp add: store_result_def)
next
  case (Inr k0)
  show ?thesis
  proof (cases "map_of (tool_states s) k0")
    case None
    with Inr assms show ?thesis by (auto simp: store_result_def Let_def)
  next
    case (Some st0)
    let ?st = "st0\<lparr>status := ''complete'', result := Some (py_str L v)\<rparr>"
    let ?s1 = "s\<lparr>tool_states := AList.update k0 ?st (tool_states s)\<rparr>"
    obtain s2 where s2: "print_tool_complete L ?st (stop_tools_live ?s1) = Inr s2"
        "effects s2 = effects s @ tools_stop s @ completion_report L (output_path s) ?st (py_str L v)"
        "tool_states s2 = AList.update k0 ?st (tool_states s)"
      by (simp add: print_tool_complete_Some name_display_def)
    from assms Inr Some s2(1) have s': "s' = update_tools_live L s2"
      by (simp add: store_result_def Let_def)
    have "\<exists>post. effects (update_tools_live L s2) = effects s2 @ post"
      by (simp add: update_tools_live_def split: option.splits)
    with s' s2 Inr Some show ?thesis by auto
  qed
qed


lemma handle_response_unknown_tag:
  assumes "rtype r = Some t" "t \<notin> set event_types"
  shows "handle_response L (Some r) s = Inr s"
proof -
  from assms(2) have "t \<noteq> ''model_thinking''" "t \<noteq> ''model_answer''" "t \<noteq> ''tool_call''"
      "t \<noteq> ''tool_result''" "t \<noteq> ''sub_agent_start''" "t \<noteq> ''sub_agent_end''"
      "t \<noteq> ''sub_agent_thinking''" "t \<noteq> ''sub_agent_answer''"
      "t \<noteq> ''sub_agent_tool_call''" "t \<noteq> ''sub_agent_tool_result''" "t \<noteq> ''error''"
    unfolding event_types_def by auto
  with assms(1) show ?thesis
    unfolding handle_response_def
    by (simp only: option.case Let_def if_False if_cancel split: if_splits)
qed

lemma handle_response_by_tag:
  "rtype r = Some ''model_thinking'' \<Longrightarrow> handle_response L (Some r) s =
     Inr (handle_model_thinking (case rcontent r of Some c \<Rightarrow> c | None \<Rightarrow> []) s)"
  "rtype r = Some ''model_answer'' \<Longrightarrow> handle_response L (Some r) s =
     Inr (handle_model_answer (case rcontent r of Some c \<Rightarrow> c | None \<Rightarrow> []) s)"
  "rtype r = Some ''tool_call'' \<Longrightarrow> handle_response L (Some r) s =
     handle_tool_call L (case rcontent r of Some c \<Rightarrow> c | None \<Rightarrow> []) s"
  "rtype r = Some ''tool_result'' \<Longrightarrow> handle_response L (Some r) s =
     handle_tool_result L (case rcontent r of Some c \<Rightarrow> c | None \<Rightarrow> []) s"
  "rtype r = Some ''sub_agent_start'' \<Longrightarrow> handle_response L (Some r) s =
     Inr (handle_sub_agent_start r s)"
  "rtype r = Some ''sub_agent_end'' \<Longrightarrow> handle_response L (Some r) s =
     Inr (handle_sub_agent_end (case rcontent r of Some c \<Rightarrow> c | None \<Rightarrow> []) s)"
  "rtype r = Some ''sub_agent_thinking'' \<Longrightarrow> handle_response L (Some r) s =
     Inr (handle_sub_agent_thinking (case rcontent r of Some c \<Rightarrow> c | None \<Rightarrow> [])
            (case rsubagent r of Some n \<Rightarrow> n | None \<Rightarrow> ''SubAgent'') s)"
  "rtype r = Some ''sub_agent_answer'' \<Longrightarrow> handle_response L (Some r) s =
     Inr (handle_sub_agent_answer (case rcontent r of Some c \<Rightarrow> c | None \<Rightarrow> [])
            (case rsubagent r of Some n \<Rightarrow> n | None \<Rightarrow> ''SubAgent'') s)"
  "rtype r = Some ''sub_agent_tool_call'' \<Longrightarrow> handle_response L (Some r) s =
     handle_sub_agent_tool_call L (case rcontent r of Some c \<Rightarrow> c | None \<Rightarrow> []) s"
  "rtype r = Some ''sub_agent_tool_result'' \<Longrightarrow> handle_response L (Some r) s =
     handle_sub_agent_tool_result L (case rcontent r of Some c \<Rightarrow> c | None \<Rightarrow> []) s"
  "rtype r = Some ''error'' \<Longrightarrow> handle_response L (Some r) s =
     Inr (handle_error (case rcontent r of Some c \<Rightarrow> c | None \<Rightarrow> []) s)"
  by (simp_all add: handle_response_def)

lemma content_handlers_tool_map [simp]:
  "tool_states (handle_model_thinking c s) = tool_states s"
  "tool_states (handle_model_answer c s) = tool_states s"
  "tool_states (handle_sub_agent_thinking c sa s) = tool_states s"
  "tool_states (handle_sub_agent_answer c sa s) = tool_states s"
  "tool_states (handle_sub_agent_start r s) = tool_states s"
  "tool_states (handle_sub_agent_end c s) = tool_states s"
  "tool_states (handle_error c s) = tool_states s"
  "pending_results (handle_model_thinking c s) = pending_results s"
  "pending_results (handle_model_answer c s) = pending_results s"
  "pending_results (handle_sub_agent_thinking c sa s) = pending_results s"
  "pending_results (handle_sub_agent_answer c sa s) = pending_results s"
  "pending_results (handle_sub_agent_start r s) = pending_results s"
  "pending_results (handle_sub_agent_end c s) = pending_results s"
  "pending_results (handle_error c s) = pending_results s"
  by (simp_all add: handle_model_thinking_def handle_model_answer_def
        handle_sub_agent_thinking_def handle_sub_agent_answer_def handle_sub_agent_start_def
        handle_sub_agent_end_def handle_error_def Let_def)


lemma call_body_step:
  assumes run: "store_call L i st0 s2 = Inr s'" and st0: "status st0 = ''pending''"
    and frame: "tool_states s2 = tool_states s" "output_path s2 = output_path s"
               "effects s2 = effects s @ pre0"
  shows "\<exists>k0 stx. dict_key i = Inr k0
     \<and> tool_states s' = AList.update k0 stx (tool_states s)
     \<and> (status stx = ''pending'' \<or>
          (status stx = ''complete'' \<and>
           (\<exists>res pre post. result stx = Some res \<and>
              effects s' = effects s @ pre @
                completion_report L (output_path s) stx res @ post)))"
proof -
  from store_call_step [OF run] obtain k0 where k0: "dict_key i = Inr k0"
    and step: "case pending_results s2 k0 of
          None \<Rightarrow> tool_states s' = AList.update k0 st0 (tool_states s2)
        | Some r \<Rightarrow>
            tool_states s' = AList.update k0
               (st0\<lparr>status := ''complete'', result := Some (py_str L r)\<rparr>) (tool_states s2)
          \<and> effects s' = effects s2 @ tools_stop s2 @
               completion_report L (output_path s2)
                 (st0\<lparr>status := ''complete'', result := Some (py_str L r)\<rparr>) (py_str L r)"
    by blast
  show ?thesis
  proof (cases "pending_results s2 k0")
    case None
    with step frame st0 k0 show ?thesis by auto
  next
    case (Some r)
    let ?st = "st0\<lparr>status := ''complete'', result := Some (py_str L r)\<rparr>"
    from Some step frame have ts: "tool_states s' = AList.update k0 ?st (tool_states s)"
      and eff: "effects s' = effects s @ (pre0 @ tools_stop s2) @
                  completion_report L (output_path s) ?st (py_str L r) @ []"
      by simp_all
    have "status ?st = ''complete''" "result ?st = Some (py_str L r)" by simp_all
    with ts eff k0 show ?thesis by blast
  qed
qed

lemma result_body_step:
  assumes run: "store_result L i v s1 = Inr s'"
    and frame: "tool_states s1 = tool_states s" "output_path s1 = output_path s"
               "effects s1 = effects s"
  shows "\<exists>k0. dict_key i = Inr k0
     \<and> (tool_states s' = tool_states s \<or>
        (\<exists>stx. tool_states s' = AList.update k0 stx (tool_states s)
           \<and> (status stx = ''pending'' \<or>
          (status stx = ''complete'' \<and>
           (\<exists>res pre post. result stx = Some res \<and>
              effects s' = effects s @ pre @
                completion_report L (output_path s) stx res @ post)))))"
proof -
  from store_result_step [OF run] obtain k0 where k0: "dict_key i = Inr k0"
    and step: "case map_of (tool_states s1) k0 of
          None \<Rightarrow> tool_states s' = tool_states s1
        | Some st0 \<Rightarrow>
            tool_states s' = AList.update k0
               (st0\<lparr>status := ''complete'', result := Some (py_str L v)\<rparr>) (tool_states s1)
          \<and> (\<exists>post. effects s' = effects s1 @ tools_stop s1 @
               completion_report L (output_path s1)
                 (st0\<lparr>status := ''complete'', result := Some (py_str L v)\<rparr>) (py_str L v) @ post)"
    by blast
  show ?thesis
  proof (cases "map_of (tool_states s1) k0")
    case None
    with step frame k0 show ?thesis by simp
  next
    case (Some st0)
    let ?st = "st0\<lparr>status := ''complete'', result := Some (py_str L v)\<rparr>"
    from Some step frame obtain post where ts: "tool_states s' = AList.update k0 ?st (tool_states s)"
      and eff: "effects s' = effects s @ tools_stop s1 @
                  completion_report L (output_path s) ?st (py_str L v) @ post"
      by auto
    have "status ?st = ''complete''" "result ?st = Some (py_str L v)" by simp_all
    with ts eff k0 show ?thesis by blast
  qed
qed



lemma handle_tool_call_step:
  assumes run: "handle_tool_call L c s = Inr s'"
  shows "tool_states s' = tool_states s \<or>
     (\<exists>d i k0 stx. json_loads L c = Some d \<and> json_get d ''id'' (JStr []) = Inr i
        \<and> dict_key i = Inr k0
        \<and> tool_states s' = AList.update k0 stx (tool_states s)
        \<and> (status stx = ''pending'' \<or>
          (status stx = ''complete'' \<and>
           (\<exists>res pre post. result stx = Some res \<and>
              effects s' = effects s @ pre @
                completion_report L (output_path s) stx res @ post))))"
proof (cases "json_loads L c")
  case None
  with run show ?thesis by (auto simp: handle_tool_call_def Let_def)
next
  case (Some d)
  let ?s2 = "(leave_content [''tool_call'', ''tool_result''] ''think'' ''answer'' s)
               \<lparr>current_state := Some ''tool_call''\<rparr>"
  from run Some obtain i n a where i: "json_get d ''id'' (JStr []) = Inr i"
    and body: "store_call L i
          \<lparr>name = n, args_str = dumps_args L a, status = ''pending'', result = None,
           subagent = None\<rparr> ?s2 = Inr s'"
    by (auto simp: handle_tool_call_def Let_def split: sum.splits)
  have eff: "effects ?s2 = effects s @
     (if current_state s \<notin> Some ` set [''tool_call'', ''tool_result''] \<and> current_live s \<noteq> None
      then flush_writes ''think'' ''answer'' s @ [ContentLiveStop] else [])"
    by (simp add: leave_content_effects)
  have "\<exists>k0 stx. dict_key i = Inr k0
     \<and> tool_states s' = AList.update k0 stx (tool_states s)
     \<and> (status stx = ''pending'' \<or>
          (status stx = ''complete'' \<and>
           (\<exists>res pre post. result stx = Some res \<and>
              effects s' = effects s @ pre @
                completion_report L (output_path s) stx res @ post)))"
    by (rule call_body_step [OF body _ _ _ eff]) simp_all
  with Some i show ?thesis by blast
qed

lemma handle_sub_agent_tool_call_step:
  assumes run: "handle_sub_agent_tool_call L c s = Inr s'"
  shows "tool_states s' = tool_states s \<or>
     (\<exists>d i k0 stx. json_loads L c = Some d \<and> json_get d ''id'' (JStr []) = Inr i
        \<and> dict_key i = Inr k0
        \<and> tool_states s' = AList.update k0 stx (tool_states s)
        \<and> (status stx = ''pending'' \<or>
          (status stx = ''complete'' \<and>
           (\<exists>res pre post. result stx = Some res \<and>
              effects s' = effects s @ pre @
                completion_report L (output_path s) stx res @ post))))"
proof (cases "json_loads L c")
  case None
  with run show ?thesis by (auto simp: handle_sub_agent_tool_call_def Let_def)
next
  case (Some d)
  let ?s2 = "(leave_content tool_phases ''sub_agent_think'' ''sub_agent_answer'' s)
               \<lparr>current_state := Some ''sub_agent_tool_call''\<rparr>"
  from run Some obtain i n a sa where i: "json_get d ''id'' (JStr []) = Inr i"
    and body: "store_call L i
          \<lparr>name = n, args_str = dumps_args L a, status = ''pending'', result = None,
           subagent = Some sa\<rparr> ?s2 = Inr s'"
    by (auto simp: handle_sub_agent_tool_call_def Let_def split: sum.splits)
  have eff: "effects ?s2 = effects s @
     (if current_state s \<notin> Some ` set tool_phases \<and> current_live s \<noteq> None
      then flush_writes ''sub_agent_think'' ''sub_agent_answer'' s @ [ContentLiveStop] else [])"
    by (simp add: leave_content_effects)
  have "\<exists>k0 stx. dict_key i = Inr k0
     \<and> tool_states s' = AList.update k0 stx (tool_states s)
     \<and> (status stx = ''pending'' \<or>
          (status stx = ''complete'' \<and>
           (\<exists>res pre post. result stx = Some res \<and>
              effects s' = effects s @ pre @
                completion_report L (output_path s) stx res @ post)))"
    by (rule call_body_step [OF body _ _ _ eff]) simp_all
  with Some i show ?thesis by blast
qed

lemma handle_tool_result_step:
  assumes run: "handle_tool_result L c s = Inr s'"
  shows "tool_states s' = tool_states s \<or>
     (\<exists>d i k0 stx. json_loads L c = Some d \<and> json_get d ''id'' (JStr []) = Inr i
        \<and> dict_key i = Inr k0
        \<and> tool_states s' = AList.update k0 stx (tool_states s)
        \<and> (status stx = ''pending'' \<or>
          (status stx = ''complete'' \<and>
           (\<exists>res pre post. result stx = Some res \<and>
              effects s' = effects s @ pre @
                completion_report L (output_path s) stx res @ post))))"
proof (cases "json_loads L c")
  case None
  with run show ?thesis by (auto simp: handle_tool_result_def Let_def)
next
  case (Some d)
  let ?s1 = "s\<lparr>current_state := Some ''tool_result''\<rparr>"
  from run Some obtain i v where i: "json_get d ''id'' (JStr []) = Inr i"
    and body: "store_result L i v ?s1 = Inr s'"
    by (auto simp: handle_tool_result_def Let_def split: sum.splits)
  have "\<exists>k0. dict_key i = Inr k0
     \<and> (tool_states s' = tool_states s \<or>
        (\<exists>stx. tool_states s' = AList.update k0 stx (tool_states s)
           \<and> (status stx = ''pending'' \<or>
          (status stx = ''complete'' \<and>
           (\<exists>res pre post. result stx = Some res \<and>
              effects s' = effects s @ pre @
                completion_report L (output_path s) stx res @ post)))))"
    by (rule result_body_step [OF body]) simp_all
  with Some i show ?thesis by blast
qed

lemma handle_sub_agent_tool_result_step:
  assumes run: "handle_sub_agent_tool_result L c s = Inr s'"
  shows "tool_states s' = tool_states s \<or>
     (\<exists>d i k0 stx. json_loads L c = Some d \<and> json_get d ''id'' (JStr []) = Inr i
        \<and> dict_key i = Inr k0
        \<and> tool_states s' = AList.update k0 stx (tool_states s)
        \<and> (status stx = ''pending'' \<or>
          (status stx = ''complete'' \<and>
           (\<exists>res pre post. result stx = Some res \<and>
              effects s' = effects s @ pre @
                completion_report L (output_path s) stx res @ post))))"
proof (cases "json_loads L c")
  case None
  with run show ?thesis by (auto simp: handle_sub_agent_tool_result_def Let_def)
next
  case (Some d)
  let ?s1 = "s\<lparr>current_state := Some ''sub_agent_tool_result''\<rparr>"
  from run Some obtain i v where i: "json_get d ''id'' (JStr []) = Inr i"
    and body: "store_result L i v ?s1 = Inr s'"
    by (auto simp: handle_sub_agent_tool_result_def Let_def split: sum.splits)
  have "\<exists>k0. dict_key i = Inr k0
     \<and> (tool_states s' = tool_states s \<or>
        (\<exists>stx. tool_states s' = AList.update k0 stx (tool_states s)
           \<and> (status stx = ''pending'' \<or>
          (status stx = ''complete'' \<and>
           (\<exists>res pre post. result stx = Some res \<and>
              effects s' = effects s @ pre @
                completion_report L (output_path s) stx res @ post)))))"
    by (rule result_body_step [OF body]) simp_all
  with Some i show ?thesis by blast
qed

lemma tool_map_step:
  assumes run: "handle_response L e s = Inr s'"
  shows "tool_states s' = tool_states s \<or>
     (\<exists>r k0 stx. e = Some r \<and> carried_id L r = Some k0
        \<and> tool_states s' = AList.update k0 stx (tool_states s)
        \<and> (status stx = ''pending'' \<or>
          (status stx = ''complete'' \<and>
           (\<exists>res pre post. result stx = Some res \<and>
              effects s' = effects s @ pre @
                completion_report L (output_path s) stx res @ post))))"
proof (cases e)
  case None
  with run show ?thesis by (simp add: handle_response_def)
next
  case e: (Some r)
  show ?thesis
  proof (cases "rtype r")
    case None
    with run e show ?thesis by (simp add: handle_response_def)
  next
    case tag: (Some t)
    consider (mt) "t = ''model_thinking''" | (ma) "t = ''model_answer''"
      | (tc) "t = ''tool_call''" | (tr) "t = ''tool_result''"
      | (ss) "t = ''sub_agent_start''" | (se) "t = ''sub_agent_end''"
      | (st) "t = ''sub_agent_thinking''" | (sa) "t = ''sub_agent_answer''"
      | (stc) "t = ''sub_agent_tool_call''" | (str) "t = ''sub_agent_tool_result''"
      | (er) "t = ''error''" | (other) "t \<notin> set event_types"
      unfolding event_types_def by auto
    then show ?thesis
    proof cases
      case mt
      with run e tag have "tool_states s' = tool_states s"
        by (auto simp: handle_response_by_tag)
      then show ?thesis ..
    next
      case ma
      with run e tag have "tool_states s' = tool_states s"
        by (auto simp: handle_response_by_tag)
      then show ?thesis ..
    next
      case tc
      let ?c = "case rcontent r of Some c \<Rightarrow> c | None \<Rightarrow> []"
      from run e tc tag have "handle_tool_call L ?c s = Inr s'"
        by (simp add: handle_response_by_tag)
      from handle_tool_call_step [OF this] show ?thesis
      proof
        assume "tool_states s' = tool_states s"
        then show ?thesis ..
      next
        assume "\<exists>d i k0 stx. json_loads L ?c = Some d \<and> json_get d ''id'' (JStr []) = Inr i
            \<and> dict_key i = Inr k0
            \<and> tool_states s' = AList.update k0 stx (tool_states s)
            \<and> (status stx = ''pending'' \<or>
              (status stx = ''complete'' \<and>
               (\<exists>res pre post. result stx = Some res \<and>
                  effects s' = effects s @ pre @
                    completion_report L (output_path s) stx res @ post)))"
        then obtain d i k0 stx where d: "json_loads L ?c = Some d" "json_get d ''id'' (JStr []) = Inr i"
            "dict_key i = Inr k0"
          and upd: "tool_states s' = AList.update k0 stx (tool_states s)"
          and out: "(status stx = ''pending'' \<or>
              (status stx = ''complete'' \<and>
               (\<exists>res pre post. result stx = Some res \<and>
                  effects s' = effects s @ pre @
                    completion_report L (output_path s) stx res @ post)))"
          by blast
        from d tag tc have "carried_id L r = Some k0"
          by (simp add: carried_id_def tool_phases_def)
        with e upd out show ?thesis by blast
      qed
    next
      case tr
      let ?c = "case rcontent r of Some c \<Rightarrow> c | None \<Rightarrow> []"
      from run e tr tag have "handle_tool_result L ?c s = Inr s'"
        by (simp add: handle_response_by_tag)
      from handle_tool_result_step [OF this] show ?thesis
      proof
        assume "tool_states s' = tool_states s"
        then show ?thesis ..
      next
        assume "\<exists>d i k0 stx. json_loads L ?c = Some d \<and> json_get d ''id'' (JStr []) = Inr i
            \<and> dict_key i = Inr k0
            \<and> tool_states s' = AList.update k0 stx (tool_states s)
            \<and> (status stx = ''pending'' \<or>
              (status stx = ''complete'' \<and>
               (\<exists>res pre post. result stx = Some res \<and>
                  effects s' = effects s @ pre @
                    completion_report L (output_path s) stx res @ post)))"
        then obtain d i k0 stx where d: "json_loads L ?c = Some d" "json_get d ''id'' (JStr []) = Inr i"
            "dict_key i = Inr k0"
          and upd: "tool_states s' = AList.update k0 stx (tool_states s)"
          and out: "(status stx = ''pending'' \<or>
              (status stx = ''complete'' \<and>
               (\<exists>res pre post. result stx = Some res \<and>
                  effects s' = effects s @ pre @
                    completion_report L (output_path s) stx res @ post)))"
          by blast
        from d tag tr have "carried_id L r = Some k0"
          by (simp add: carried_id_def tool_phases_def)
        with e upd out show ?thesis by blast
      qed
    next
      case ss
      with run e tag have "tool_states s' = tool_states s"
        by (auto simp: handle_response_by_tag)
      then show ?thesis ..
    next
      case se
      with run e tag have "tool_states s' = tool_states s"
        by (auto simp: handle_response_by_tag)
      then show ?thesis ..
    next
      case st
      with run e tag have "tool_states s' = tool_states s"
        by (auto simp: handle_response_by_tag)
      then show ?thesis ..
    next
      case sa
      with run e tag have "tool_states s' = tool_states s"
        by (auto simp: handle_response_by_tag)
      then show ?thesis ..
    next
      case stc
      let ?c = "case rcontent r of Some c \<Rightarrow> c | None \<Rightarrow> []"
      from run e stc tag have "handle_sub_agent_tool_call L ?c s = Inr s'"
        by (simp add: handle_response_by_tag)
      from handle_sub_agent_tool_call_step [OF this] show ?thesis
      proof
        assume "tool_states s' = tool_states s"
        then show ?thesis ..
      next
        assume "\<exists>d i k0 stx. json_loads L ?c = Some d \<and> json_get d ''id'' (JStr []) = Inr i
            \<and> dict_key i = Inr k0
            \<and> tool_states s' = AList.update k0 stx (tool_states s)
            \<and> (status stx = ''pending'' \<or>
              (status stx = ''complete'' \<and>
               (\<exists>res pre post. result stx = Some res \<and>
                  effects s' = effects s @ pre @
                    completion_report L (output_path s) stx res @ post)))"
        then obtain d i k0 stx where d: "json_loads L ?c = Some d" "json_get d ''id'' (JStr []) = Inr i"
            "dict_key i = Inr k0"
          and upd: "tool_states s' = AList.update k0 stx (tool_states s)"
          and out: "(status stx = ''pending'' \<or>
              (status stx = ''complete'' \<and>
               (\<exists>res pre post. result stx = Some res \<and>
                  effects s' = effects s @ pre @
                    completion_report L (output_path s) stx res @ post)))"
          by blast
        from d tag stc have "carried_id L r = Some k0"
          by (simp add: carried_id_def tool_phases_def)
        with e upd out show ?thesis by blast
      qed
    next
      case str
      let ?c = "case rcontent r of Some c \<Rightarrow> c | None \<Rightarrow> []"
      from run e str tag have "handle_sub_agent_tool_result L ?c s = Inr s'"
        by (simp add: handle_response_by_tag)
      from handle_sub_agent_tool_result_step [OF this] show ?thesis
      proof
        assume "tool_states s' = tool_states s"
        then show ?thesis ..
      next
        assume "\<exists>d i k0 stx. json_loads L ?c = Some d \<and> json_get d ''id'' (JStr []) = Inr i
            \<and> dict_key i = Inr k0
            \<and> tool_states s' = AList.update k0 stx (tool_states s)
            \<and> (status stx = ''pending'' \<or>
              (status stx = ''complete'' \<and>
               (\<exists>res pre post. result stx = Some res \<and>
                  effects s' = effects s @ pre @
                    completion_report L (output_path s) stx res @ post)))"
        then obtain d i k0 stx where d: "json_loads L ?c = Some d" "json_get d ''id'' (JStr []) = Inr i"
            "dict_key i = Inr k0"
          and upd: "tool_states s' = AList.update k0 stx (tool_states s)"
          and out: "(status stx = ''pending'' \<or>
              (status stx = ''complete'' \<and>
               (\<exists>res pre post. result stx = Some res \<and>
                  effects s' = effects s @ pre @
                    completion_report L (output_path s) stx res @ post)))"
          by blast
        from d tag str have "carried_id L r = Some k0"
          by (simp add: carried_id_def tool_phases_def)
        with e upd out show ?thesis by blast
      qed
    next
      case er
      with run e tag have "tool_states s' = tool_states s"
        by (auto simp: handle_response_by_tag)
      then show ?thesis ..
    next
      case other
      with run e tag have "s' = s" by (simp add: handle_response_unknown_tag)
      then show ?thesis by simp
    qed
  qed
qed

lemma carried_idD:
  assumes "carried_id L r = Some k"
  shows "\<exists>t d i. rtype r = Some t \<and> t \<in> set tool_phases
     \<and> json_loads L (case rcontent r of Some c \<Rightarrow> c | None \<Rightarrow> []) = Some d
     \<and> json_get d ''id'' (JStr []) = Inr i \<and> dict_key i = Inr k"
  using assms
  by (simp add: carried_id_def split: option.splits if_splits sum.splits)

lemma distinct_step:
  assumes "handle_response L e s = Inr s'" "distinct (map fst (tool_states s))"
  shows "distinct (map fst (tool_states s'))"
  using tool_map_step [OF assms(1)] assms(2)
  by (auto simp: distinct_update)

lemma distinct_run:
  "handle_responses L es s = Inr s' \<Longrightarrow> distinct (map fst (tool_states s)) \<Longrightarrow>
   distinct (map fst (tool_states s'))"
proof (induction es arbitrary: s)
  case Nil
  then show ?case by simp
next
  case (Cons e es)
  from Cons.prems(1) obtain s1 where s1: "handle_response L e s = Inr s1"
    and rest: "handle_responses L es s1 = Inr s'"
    by (auto split: sum.splits)
  from distinct_step [OF s1 Cons.prems(2)] show ?case by (rule Cons.IH [OF rest])
qed

lemma one_entry_per_key:
  "distinct (map fst al) \<Longrightarrow> length (filter (\<lambda>p. fst p = k \<and> P (snd p)) al) \<le> 1"
proof (induction al)
  case Nil
  then show ?case by simp
next
  case (Cons p al)
  show ?case
  proof (cases "fst p = k")
    case True
    with Cons.prems have "k \<notin> fst ` set al" by auto
    then have "filter (\<lambda>p. fst p = k \<and> P (snd p)) al = []"
      by (auto simp: filter_empty_conv)
    then show ?thesis by simp
  next
    case False
    with Cons show ?thesis by simp
  qed
qed

subsection \<open>Completion of a tool invocation\<close>



subsection \<open>Life cycle of a tool record\<close>

text \<open>
  Claim C5 (amended). Along every sequence of events the tool map holds at most one record
  per id, hence at most one Pending record per id. The record of an id changes only in a
  step whose event is a call or result event carrying that id. A result event carrying
  the id of an existing record makes that record Complete and leaves the Pending Result
  Cache alone. A call event removes its id from the Pending Result Cache in the same step.
\<close>

theorem tool_record_lifecycle:
  "(distinct (map fst (tool_states s)) \<and> handle_responses L es s = Inr s' \<longrightarrow>
      distinct (map fst (tool_states s'))
      \<and> length (filter (\<lambda>p. fst p = k \<and> status (snd p) = ''pending'') (tool_states s')) \<le> 1)
   \<and> (handle_response L e s = Inr s1 \<and> map_of (tool_states s1) k \<noteq> map_of (tool_states s) k \<longrightarrow>
        (\<exists>r. e = Some r \<and> carried_id L r = Some k))
   \<and> (rtype r = Some tr \<and> (tr = ''tool_result'' \<or> tr = ''sub_agent_tool_result'')
        \<and> carried_id L r = Some k \<and> map_of (tool_states s) k = Some st \<longrightarrow>
        (\<exists>s2 res. handle_response L (Some r) s = Inr s2
           \<and> map_of (tool_states s2) k = Some (st\<lparr>status := ''complete'', result := Some res\<rparr>)
           \<and> pending_results s2 = pending_results s))
   \<and> (rtype r = Some tc \<and> (tc = ''tool_call'' \<or> tc = ''sub_agent_tool_call'')
        \<and> carried_id L r = Some k \<longrightarrow>
        (\<exists>s3. handle_response L (Some r) s = Inr s3 \<and> pending_results s3 k = None))"
proof (intro conjI impI)
  assume a: "distinct (map fst (tool_states s)) \<and> handle_responses L es s = Inr s'"
  then show d: "distinct (map fst (tool_states s'))"
    using distinct_run by blast
  then show "length (filter (\<lambda>p. fst p = k \<and> status (snd p) = ''pending'') (tool_states s')) \<le> 1"
    by (rule one_entry_per_key)
next
  assume a: "handle_response L e s = Inr s1 \<and> map_of (tool_states s1) k \<noteq> map_of (tool_states s) k"
  then have run: "handle_response L e s = Inr s1"
    and diff: "map_of (tool_states s1) k \<noteq> map_of (tool_states s) k"
    by simp_all
  from tool_map_step [OF run] show "\<exists>r. e = Some r \<and> carried_id L r = Some k"
  proof
    assume "tool_states s1 = tool_states s"
    with diff show ?thesis by simp
  next
    assume "\<exists>r k0 stx. e = Some r \<and> carried_id L r = Some k0
        \<and> tool_states s1 = AList.update k0 stx (tool_states s)
        \<and> (status stx = ''pending'' \<or>
          (status stx = ''complete'' \<and>
           (\<exists>res pre post. result stx = Some res \<and>
              effects s1 = effects s @ pre @
                completion_report L (output_path s) stx res @ post)))"
    then obtain r k0 stx where r: "e = Some r" "carried_id L r = Some k0"
      and upd: "tool_states s1 = AList.update k0 stx (tool_states s)"
      by blast
    from upd diff have "k0 = k"
      by (simp add: update_conv' split: if_splits)
    with r show ?thesis by simp
  qed
next
  assume a: "rtype r = Some tr \<and> (tr = ''tool_result'' \<or> tr = ''sub_agent_tool_result'')
        \<and> carried_id L r = Some k \<and> map_of (tool_states s) k = Some st"
  then obtain d i where d: "json_loads L (case rcontent r of Some c \<Rightarrow> c | None \<Rightarrow> []) = Some d"
      "json_get d ''id'' (JStr []) = Inr i" "dict_key i = Inr k"
    using carried_idD [of L r k] by blast
  from a have tr: "rtype r = Some tr" "tr = ''tool_result'' \<or> tr = ''sub_agent_tool_result''"
    and st: "map_of (tool_states s) k = Some st"
    by simp_all
  from result_event_fields [OF tr refl d] obtain v s2
    where "handle_response L (Some r) s = Inr s2"
      "pending_results s2 = (case map_of (tool_states s) k of Some st \<Rightarrow> pending_results s
                             | None \<Rightarrow> (pending_results s)(k \<mapsto> v))"
      "tool_states s2 = (case map_of (tool_states s) k of
               Some st \<Rightarrow> AList.update k (st\<lparr>status := ''complete'', result := Some (py_str L v)\<rparr>)
                      (tool_states s)
             | None \<Rightarrow> tool_states s)"
    by blast
  with st have "handle_response L (Some r) s = Inr s2
           \<and> map_of (tool_states s2) k = Some (st\<lparr>status := ''complete'', result := Some (py_str L v)\<rparr>)
           \<and> pending_results s2 = pending_results s"
    by (simp add: update_conv')
  then show "\<exists>s2 res. handle_response L (Some r) s = Inr s2
           \<and> map_of (tool_states s2) k = Some (st\<lparr>status := ''complete'', result := Some res\<rparr>)
           \<and> pending_results s2 = pending_results s"
    by blast
next
  assume a: "rtype r = Some tc \<and> (tc = ''tool_call'' \<or> tc = ''sub_agent_tool_call'')
        \<and> carried_id L r = Some k"
  then obtain d i where d: "json_loads L (case rcontent r of Some c \<Rightarrow> c | None \<Rightarrow> []) = Some d"
      "json_get d ''id'' (JStr []) = Inr i" "dict_key i = Inr k"
    using carried_idD [of L r k] by blast
  from a have tc: "rtype r = Some tc" "tc = ''tool_call'' \<or> tc = ''sub_agent_tool_call''"
    by simp_all
  from call_event_fields [OF tc refl d] obtain s3
    where "handle_response L (Some r) s = Inr s3"
      "pending_results s3 = (pending_results s)(k := None)"
    by blast
  then show "\<exists>s3. handle_response L (Some r) s = Inr s3 \<and> pending_results s3 k = None"
    by simp
qed

theorem tool_record_lifecycle_witness:
  "(\<exists>s'. handle_responses sample_lib
            [event ''tool_call'' call_t1, event ''tool_result'' result_t1] (init ''out.md'') = Inr s'
        \<and> distinct (map fst (tool_states s'))
        \<and> length (filter (\<lambda>p. fst p = KStr ''t1'' \<and> status (snd p) = ''pending'') (tool_states s')) \<le> 1)
   \<and> (\<exists>s0 s2 res. handle_response sample_lib (event ''tool_call'' call_t1) (init ''out.md'') = Inr s0
        \<and> map_of (tool_states s0) (KStr ''t1'') =
            Some \<lparr>name = JStr ''ls'', args_str = ''{}'', status = ''pending'', result = None,
                  subagent = None\<rparr>
        \<and> handle_response sample_lib (event ''tool_result'' result_t1) s0 = Inr s2
        \<and> map_of (tool_states s2) (KStr ''t1'') =
            Some \<lparr>name = JStr ''ls'', args_str = ''{}'', status = ''complete'', result = Some res,
                  subagent = None\<rparr>)
   \<and> (\<exists>sb s3. handle_response sample_lib (event ''tool_result'' result_t1) (init ''out.md'') = Inr sb
        \<and> pending_results sb (KStr ''t1'') = Some (JStr ''42'')
        \<and> handle_response sample_lib (event ''tool_call'' call_t1) sb = Inr s3
        \<and> pending_results s3 (KStr ''t1'') = None)"
proof (intro conjI)
  obtain s' where run: "handle_responses sample_lib
            [event ''tool_call'' call_t1, event ''tool_result'' result_t1] (init ''out.md'') = Inr s'"
    by (simp add: run_defs)
  have "distinct (map fst (tool_states (init ''out.md'')))"
    by (simp add: init_def)
  with run have "distinct (map fst (tool_states (init ''out.md'')))
      \<and> handle_responses sample_lib
            [event ''tool_call'' call_t1, event ''tool_result'' result_t1] (init ''out.md'') = Inr s'"
    by (simp only: simp_thms)
  then have "distinct (map fst (tool_states s'))
      \<and> length (filter (\<lambda>p. fst p = KStr ''t1'' \<and> status (snd p) = ''pending'') (tool_states s')) \<le> 1"
    by (rule tool_record_lifecycle [THEN conjunct1, rule_format])
  with run show "\<exists>s'. handle_responses sample_lib
            [event ''tool_call'' call_t1, event ''tool_result'' result_t1] (init ''out.md'') = Inr s'
        \<and> distinct (map fst (tool_states s'))
        \<and> length (filter (\<lambda>p. fst p = KStr ''t1'' \<and> status (snd p) = ''pending'') (tool_states s')) \<le> 1"
    by blast
next
  let ?pending = "\<lparr>name = JStr ''ls'', args_str = ''{}'', status = ''pending'', result = None,
                  subagent = None\<rparr>"
  let ?r = "\<lparr>rtype = Some ''tool_result'', rcontent = Some result_t1, rsubagent = None,
             rtask = None\<rparr>"
  obtain s0 where s0: "handle_response sample_lib (event ''tool_call'' call_t1) (init ''out.md'') = Inr s0"
    and rec0: "map_of (tool_states s0) (KStr ''t1'') = Some ?pending"
    by (simp add: run_defs)
  have id: "carried_id sample_lib ?r = Some (KStr ''t1'')"
    by (simp add: carried_id_def tool_phases_def sample_lib_def call_t1_def result_t1_def
          result_t1_again_def result_big_def)
  have "\<exists>s2 res. handle_response sample_lib (Some ?r) s0 = Inr s2
      \<and> map_of (tool_states s2) (KStr ''t1'') =
          Some (?pending\<lparr>status := ''complete'', result := Some res\<rparr>)
      \<and> pending_results s2 = pending_results s0"
    by (rule tool_record_lifecycle [THEN conjunct2, THEN conjunct2, THEN conjunct1, rule_format,
          where tr = "''tool_result''"])
       (simp add: id rec0)
  then obtain s2 res where "handle_response sample_lib (Some ?r) s0 = Inr s2"
    "map_of (tool_states s2) (KStr ''t1'') = Some (?pending\<lparr>status := ''complete'', result := Some res\<rparr>)"
    by blast
  with s0 rec0 show "\<exists>s0 s2 res. handle_response sample_lib (event ''tool_call'' call_t1) (init ''out.md'') = Inr s0
        \<and> map_of (tool_states s0) (KStr ''t1'') = Some ?pending
        \<and> handle_response sample_lib (event ''tool_result'' result_t1) s0 = Inr s2
        \<and> map_of (tool_states s2) (KStr ''t1'') =
            Some \<lparr>name = JStr ''ls'', args_str = ''{}'', status = ''complete'', result = Some res,
                  subagent = None\<rparr>"
    by (auto simp: event_def)
next
  let ?c = "\<lparr>rtype = Some ''tool_call'', rcontent = Some call_t1, rsubagent = None,
             rtask = None\<rparr>"
  obtain sb where sb: "handle_response sample_lib (event ''tool_result'' result_t1) (init ''out.md'') = Inr sb"
    and cached: "pending_results sb (KStr ''t1'') = Some (JStr ''42'')"
    by (simp add: run_defs)
  have id: "carried_id sample_lib ?c = Some (KStr ''t1'')"
    by (simp add: carried_id_def tool_phases_def sample_lib_def call_t1_def result_t1_def
          result_t1_again_def result_big_def)
  have "\<exists>s3. handle_response sample_lib (Some ?c) sb = Inr s3
      \<and> pending_results s3 (KStr ''t1'') = None"
    by (rule tool_record_lifecycle [THEN conjunct2, THEN conjunct2, THEN conjunct2, rule_format,
          where tc = "''tool_call''"])
       (simp add: id)
  then obtain s3 where "handle_response sample_lib (Some ?c) sb = Inr s3"
    "pending_results s3 (KStr ''t1'') = None"
    by blast
  with sb cached show "\<exists>sb s3. handle_response sample_lib (event ''tool_result'' result_t1) (init ''out.md'') = Inr sb
        \<and> pending_results sb (KStr ''t1'') = Some (JStr ''42'')
        \<and> handle_response sample_lib (event ''tool_call'' call_t1) sb = Inr s3
        \<and> pending_results s3 (KStr ''t1'') = None"
    by (auto simp: event_def)
qed

text \<open>
  A Complete record is not final: a second result event with the same id completes the
  record again with the new result text, and a second call event with the same id replaces
  it by a Pending record.
\<close>

theorem tool_record_lifecycle_counterexample:
  "(case handle_responses sample_lib
           [event ''tool_call'' call_t1, event ''tool_result'' result_t1] (init ''out.md'')
    of Inr s \<Rightarrow> map_of (tool_states s) (KStr ''t1'') | Inl e \<Rightarrow> None)
     = Some \<lparr>name = JStr ''ls'', args_str = ''{}'', status = ''complete'',
             result = Some ''42'', subagent = None\<rparr>
   \<and> (case handle_responses sample_lib
           [event ''tool_call'' call_t1, event ''tool_result'' result_t1,
            event ''tool_result'' result_t1_again] (init ''out.md'')
      of Inr s \<Rightarrow> map_of (tool_states s) (KStr ''t1'') | Inl e \<Rightarrow> None)
     = Some \<lparr>name = JStr ''ls'', args_str = ''{}'', status = ''complete'',
             result = Some ''43'', subagent = None\<rparr>
   \<and> (case handle_responses sample_lib
           [event ''tool_call'' call_t1, event ''tool_result'' result_t1,
            event ''tool_call'' call_t1] (init ''out.md'')
      of Inr s \<Rightarrow> map_of (tool_states s) (KStr ''t1'') | Inl e \<Rightarrow> None)
     = Some \<lparr>name = JStr ''ls'', args_str = ''{}'', status = ''pending'',
             result = None, subagent = None\<rparr>"
  by (simp add: run_defs)

subsection \<open>The dispatcher\<close>

text \<open>
  Claim C8. A response that is \<^verbatim>\<open>None\<close>, or whose type tag is missing, \<^verbatim>\<open>None\<close> or not
  one of the eleven recognised event types, makes the dispatcher return normally with the
  handler unchanged: no handler runs, nothing is printed and nothing is written.
\<close>

theorem handle_response_ignores_unrecognised:
  assumes "case response of None \<Rightarrow> True
           | Some r \<Rightarrow> (case rtype r of None \<Rightarrow> True | Some t \<Rightarrow> t \<notin> set event_types)"
  shows "handle_response L response s = Inr s"
proof (cases response)
  case None
  then show ?thesis by (simp add: handle_response_def)
next
  case (Some r)
  show ?thesis
  proof (cases "rtype r")
    case None
    with Some show ?thesis by (simp add: handle_response_def)
  next
    case tag: (Some t)
    with assms Some have "t \<notin> set event_types" by simp
    with tag Some show ?thesis by (simp add: handle_response_unknown_tag)
  qed
qed

theorem handle_response_ignores_unrecognised_witness:
  "handle_response sample_lib (event ''heartbeat'' ''x'') (init ''out.md'') = Inr (init ''out.md'')
   \<and> handle_response sample_lib (event [] ''x'') (init ''out.md'') = Inr (init ''out.md'')
   \<and> handle_response sample_lib None (init ''out.md'') = Inr (init ''out.md'')"
  using handle_response_ignores_unrecognised
          [of "event ''heartbeat'' ''x''" sample_lib "init ''out.md''"]
        handle_response_ignores_unrecognised [of "event [] ''x''" sample_lib "init ''out.md''"]
        handle_response_ignores_unrecognised [of None sample_lib "init ''out.md''"]
  by (simp add: event_def event_types_def)

section \<open>Properties of the image tool\<close>

lemma lstrip_seps_not_absolute: "\<not> is_absolute (Path (lstrip_seps path))"
proof
  assume "is_absolute (Path (lstrip_seps path))"
  then have "prefix ''/'' (dropWhile (\<lambda>c. c = CHR ''/'' \<or> c = CHR 0x5C) path)"
    by (simp add: is_absolute_def Path_def lstrip_seps_def)
  then obtain xs where xs: "dropWhile (\<lambda>c. c = CHR ''/'' \<or> c = CHR 0x5C) path = CHR ''/'' # xs"
    by (auto simp: prefix_def)
  then have "dropWhile (\<lambda>c. c = CHR ''/'' \<or> c = CHR 0x5C) path \<noteq> []"
    by simp
  from hd_dropWhile [OF this] xs show False
    by simp
qed

lemma stripped_path:
  "(if prefix ''/'' path \<or> prefix [CHR 0x5C] path then lstrip_seps path else path) = lstrip_seps path"
  by (cases path) (auto simp: lstrip_seps_def)

lemma resolve_path_unfold:
  "resolve_path P path =
     (case resolve P (Path (get_workspace_path P)) of
        Inl e \<Rightarrow> Inl e
      | Inr w \<Rightarrow>
          (case resolve P (True, w @ snd (Path (lstrip_seps path))) of
             Inl e \<Rightarrow> Inl e
           | Inr r \<Rightarrow> if prefix w r then Inr r else Inl PermissionError))"
proof (cases "resolve P (Path (get_workspace_path P))")
  case (Inl e)
  then show ?thesis by (simp add: resolve_path_def)
next
  case (Inr w)
  then show ?thesis
    by (simp only: resolve_path_def Let_def stripped_path)
       (simp add: lstrip_seps_not_absolute joinpath_def)
qed

lemmas path_defs = resolve_path_def read_image_def Path_def is_absolute_def joinpath_def
  lstrip_seps_def sample_platform_def lexical_resolve_def validate_image_extension_def
  suffix_of_def lower_def reraise_def Let_def

text \<open>
  Claim C10 (amended). Leading slashes and backslashes are stripped, so every path is
  resolved below the workspace. When \<^verbatim>\<open>_resolve_path\<close> returns, the path it returns is the
  resolved path and lies inside the resolved workspace. When it raises, the exception is
  \<^verbatim>\<open>PermissionError\<close> for a resolved path outside the workspace, or else the exception that
  \<^verbatim>\<open>Path.resolve\<close> itself raised. \<^verbatim>\<open>read_image\<close> reads a local file only at a path that
  \<^verbatim>\<open>_resolve_path\<close> returned, hence only inside the workspace.
\<close>

theorem resolve_path_sandbox:
  "(resolve_path P path = Inr r \<longrightarrow>
      (\<exists>w. resolve P (Path (get_workspace_path P)) = Inr w \<and> prefix w r
          \<and> resolve P (True, w @ snd (Path (lstrip_seps path))) = Inr r))
   \<and> (resolve_path P path = Inl e \<longrightarrow>
        resolve P (Path (get_workspace_path P)) = Inl e
      \<or> (\<exists>w. resolve P (Path (get_workspace_path P)) = Inr w
            \<and> resolve P (True, w @ snd (Path (lstrip_seps path))) = Inl e)
      \<or> (e = PermissionError
          \<and> (\<exists>w r'. resolve P (Path (get_workspace_path P)) = Inr w
                \<and> resolve P (True, w @ snd (Path (lstrip_seps path))) = Inr r'
                \<and> \<not> prefix w r')))
   \<and> (read_image P path = Inr (FileImage fp image_data) \<longrightarrow>
        resolve_path P path = Inr fp \<and> read_bytes P fp = Inr image_data
      \<and> (\<exists>w. resolve P (Path (get_workspace_path P)) = Inr w \<and> prefix w fp))"
proof (intro conjI impI)
  assume "resolve_path P path = Inr r"
  then show "\<exists>w. resolve P (Path (get_workspace_path P)) = Inr w \<and> prefix w r
          \<and> resolve P (True, w @ snd (Path (lstrip_seps path))) = Inr r"
    by (auto simp: resolve_path_unfold split: sum.splits if_splits)
next
  assume "resolve_path P path = Inl e"
  then show "resolve P (Path (get_workspace_path P)) = Inl e
      \<or> (\<exists>w. resolve P (Path (get_workspace_path P)) = Inr w
            \<and> resolve P (True, w @ snd (Path (lstrip_seps path))) = Inl e)
      \<or> (e = PermissionError
          \<and> (\<exists>w r'. resolve P (Path (get_workspace_path P)) = Inr w
                \<and> resolve P (True, w @ snd (Path (lstrip_seps path))) = Inr r'
                \<and> \<not> prefix w r'))"
    by (auto simp: resolve_path_unfold split: sum.splits if_splits)
next
  assume run: "read_image P path = Inr (FileImage fp image_data)"
  then have local: "resolve_path P path = Inr fp" and bytes: "read_bytes P fp = Inr image_data"
    by (auto simp: read_image_def split: if_splits sum.splits)
  from local show "resolve_path P path = Inr fp" .
  from bytes show "read_bytes P fp = Inr image_data" .
  from local show "\<exists>w. resolve P (Path (get_workspace_path P)) = Inr w \<and> prefix w fp"
    by (auto simp: resolve_path_unfold split: sum.splits if_splits)
qed

theorem resolve_path_sandbox_witness:
  "resolve sample_platform (Path (get_workspace_path sample_platform)) = Inr [''srv'', ''ws'']
   \<and> resolve_path sample_platform ''/cat.png'' = Inr [''srv'', ''ws'', ''cat.png'']
   \<and> resolve_path sample_platform ''sub/../cat.png'' = Inr [''srv'', ''ws'', ''cat.png'']
   \<and> resolve_path sample_platform ''../../etc/passwd'' = Inl PermissionError
   \<and> read_image sample_platform ''//cat.png'' = Inr (FileImage [''srv'', ''ws'', ''cat.png''] ''PNG'')
   \<and> prefix [''srv'', ''ws''] [''srv'', ''ws'', ''cat.png'']"
proof -
  have w: "resolve sample_platform (Path (get_workspace_path sample_platform)) = Inr [''srv'', ''ws'']"
    by (simp add: path_defs)
  have a: "resolve_path sample_platform ''/cat.png'' = Inr [''srv'', ''ws'', ''cat.png'']"
    by (simp add: path_defs)
  have b: "resolve_path sample_platform ''sub/../cat.png'' = Inr [''srv'', ''ws'', ''cat.png'']"
    by (simp add: path_defs)
  have c: "resolve_path sample_platform ''../../etc/passwd'' = Inl PermissionError"
    by (simp add: path_defs)
  have d: "read_image sample_platform ''//cat.png'' = Inr (FileImage [''srv'', ''ws'', ''cat.png''] ''PNG'')"
    by (simp add: path_defs)
  from resolve_path_sandbox [of sample_platform "''/cat.png''" "[''srv'', ''ws'', ''cat.png'']"
         PermissionError "[''srv'', ''ws'', ''cat.png'']" "''PNG''"] a w
  have "prefix [''srv'', ''ws''] [''srv'', ''ws'', ''cat.png'']"
    by auto
  with w a b c d show ?thesis by simp
qed

text \<open>
  \<^verbatim>\<open>PermissionError\<close> is not the only exception. \<^verbatim>\<open>Path.resolve\<close> raises \<^verbatim>\<open>ValueError\<close> on a
  path with an embedded null character; the call stands outside the \<^verbatim>\<open>try\<close> of
  \<^verbatim>\<open>_resolve_path\<close>, and \<^verbatim>\<open>read_image\<close> passes a \<^verbatim>\<open>ValueError\<close> on unchanged.
\<close>

theorem resolve_path_sandbox_counterexample:
  "resolve_path sample_platform [CHR ''a'', CHR 0x00, CHR ''b''] = Inl ValueError
   \<and> read_image sample_platform [CHR ''a'', CHR 0x00, CHR ''b''] = Inl ValueError"
  by (simp add: path_defs)

end
